theory Spec2Isabelle
  imports Main "HOL-Library.Word"
begin

unbundle bit_operations_syntax

section \<open>The TEAL assembler \<^verbatim>\<open>tealc.py\<close>: data model\<close>

text \<open>
  The assembler is one Python class, \<^verbatim>\<open>Assembler\<close>, whose methods append bytes to
  \<^verbatim>\<open>self.out\<close> and update two constant pools, a label table and a list of label
  references. The model below follows the source method by method.

  \<^item> Python \<^verbatim>\<open>int\<close> is \<^typ>\<open>int\<close>; an element of a \<^verbatim>\<open>bytes\<close> object is a
    \<^typ>\<open>8 word\<close>, and every place where the source builds \<^verbatim>\<open>bytes([...])\<close> from
    integers checks the range \<open>0..255\<close> as Python does (\<^verbatim>\<open>ValueError\<close>).
  \<^item> Python \<^verbatim>\<open>str\<close> is \<^typ>\<open>string\<close>: the model covers the code points below 256.
  \<^item> \<^verbatim>\<open>self.out\<close> is an \<^verbatim>\<open>io.BytesIO\<close> that is only ever written at its end, so it
    is the list of bytes written so far and \<^verbatim>\<open>self.out.tell()\<close> is its length.
  \<^item> A method mutates the session and either returns or raises; the session keeps the
    mutations made before a raise. So a method is a function from the session to an
    outcome and the session afterwards.
\<close>

type_synonym byte = "8 word"

text \<open>
  One constructor for each \<^verbatim>\<open>raise Exception(...)\<close> of the source, carrying the values
  its message is formatted from, and one for each kind of Python run-time error that
  the source can run into (an index out of range, subscripting \<^verbatim>\<open>None\<close>, a missing
  dictionary key, a failed \<^verbatim>\<open>int(...)\<close> or \<^verbatim>\<open>bytes([...])\<close>, a failed decode).
\<close>

datatype error =
    CouldNotParseByteConstant "string list"   \<comment> \<open>could not parse byte constant args ..\<close>
  | DuplicateLabel string                     \<comment> \<open>duplicate label ..\<close>
  | TooManyIntConstants                       \<comment> \<open>cannot have more than 256 int constants\<close>
  | NegativeIntcIndex                         \<comment> \<open>invalid negative intc const index\<close>
  | TooManyByteConstants                      \<comment> \<open>cannot have more than 256 byte constants\<close>
  | NegativeBytecIndex                        \<comment> \<open>invalid negative bytec const index\<close>
  | TooManyArgs                               \<comment> \<open>cannot have more than 256 args\<close>
  | NegativeArgIndex                          \<comment> \<open>invalid negative arg index\<close>
  | IntExpectsOneArg                          \<comment> \<open>int expects 1 arg\<close>
  | IntcExpectsOneArg                         \<comment> \<open>intc expects 1 arg\<close>
  | BytecExpectsOneArg                        \<comment> \<open>bytec expects 1 arg\<close>
  | AddrExpectsOneArg                         \<comment> \<open>addr expects 1 arg\<close>
  | ByteExpectsAnArgs                         \<comment> \<open>byte expects an args\<close>
  | ExpectsOneArgGot string "string list"     \<comment> \<open>.. expects 1 arg, got ..\<close>
  | ExpectsOneArgument string                 \<comment> \<open>.. expects one argument\<close>
  | ExpectsTwoArguments string                \<comment> \<open>.. expects two arguments\<close>
  | UnknownArg string string                  \<comment> \<open>.. unknown arg ..\<close>
  | CouldNotParseLine string                  \<comment> \<open>could not parse line ..\<close>
  | UnknownOpcode string                      \<comment> \<open>unknown opcode ..\<close>
  | UndefinedLabel nat string                 \<comment> \<open>:n reference to undefined label ..\<close>
  | BackwardJumpNotAllowed nat string           \<comment> \<open>:n label .. is before reference ..\<close>
  | JumpTooFar nat string                    \<comment> \<open>:n label .. is too far away\<close>
  | IndexError
  | TypeError
  | KeyError
  | ValueError
  | BinasciiError
  | DecodeAddressError

text \<open>
  A call returns a value, raises, or does not return at all (the loop of
  \<^verbatim>\<open>to_varuint\<close> never ends on a negative number).
\<close>

datatype 'a result = Returns 'a | Raises error | Diverges

section \<open>Variable-length integers\<close>

text \<open>
  \<^verbatim>\<open>to_varuint\<close>, lines 23-33. On Python integers \<^verbatim>\<open>x & 0x7f\<close> and \<^verbatim>\<open>x >> 7\<close> are
  two's-complement operations of unbounded width, which is what \<open>AND\<close> and
  \<^const>\<open>drop_bit\<close> are on \<^typ>\<open>int\<close>. The loop need not end, so not returning is
  \<^const>\<open>None\<close>.
\<close>

partial_function (option) to_varuint_loop :: "int \<Rightarrow> byte list \<Rightarrow> byte list option" where
  "to_varuint_loop x acc =
     (let tb = x AND 0x7f;
          x' = drop_bit 7 x;
          tb' = (if x' \<noteq> 0 then tb OR 0x80 else tb);
          acc' = acc @ [word_of_int tb']
      in if x' = 0 then Some acc' else to_varuint_loop x' acc')"

declare to_varuint_loop.simps [code]

definition to_varuint :: "int \<Rightarrow> byte list option" where
  "to_varuint x = to_varuint_loop x []"

text \<open>
  The encoder in the words of the specification (section 4.1), on natural numbers:
  the low seven bits, with the high bit set while more remain.
\<close>

fun encodeVarUint :: "nat \<Rightarrow> byte list" where
  "encodeVarUint x =
     (if x div 128 = 0 then [of_nat (x mod 128)]
      else of_nat (x mod 128 + 128) # encodeVarUint (x div 128))"

declare encodeVarUint.simps [simp del]

section \<open>Python's string operations\<close>

text \<open>
  The source works on text through built-in methods of \<^verbatim>\<open>str\<close>. Each is modelled by
  what it does on code points below 256.
\<close>

text \<open>\<^verbatim>\<open>ord(c)\<close>\<close>

definition py_ord :: "char \<Rightarrow> int" where
  "py_ord c = of_char c"

text \<open>\<^verbatim>\<open>str.isspace\<close> of one character: the white space \<^verbatim>\<open>strip\<close> and \<^verbatim>\<open>split\<close> remove.\<close>

definition py_isspace :: "char \<Rightarrow> bool" where
  "py_isspace c = (py_ord c \<in> {9, 10, 11, 12, 13, 28, 29, 30, 31, 32, 133, 160})"

text \<open>\<^verbatim>\<open>s.strip()\<close>\<close>

definition py_strip :: "string \<Rightarrow> string" where
  "py_strip s = rev (dropWhile py_isspace (rev (dropWhile py_isspace s)))"

text \<open>\<^verbatim>\<open>s.split()\<close>: the maximal runs of characters that are not white space.\<close>

fun split_from :: "string \<Rightarrow> string \<Rightarrow> string list" where
  "split_from [] cur = (if cur = [] then [] else [cur])"
| "split_from (c # cs) cur =
     (if py_isspace c then (if cur = [] then split_from cs [] else cur # split_from cs [])
      else split_from cs (cur @ [c]))"

definition py_split :: "string \<Rightarrow> string list" where
  "py_split s = split_from s []"

text \<open>
  \<^verbatim>\<open>s.splitlines()\<close>: a line ends at \<open>\n\<close>, \<open>\r\<close>, \<open>\r\n\<close>, \<open>\v\<close>, \<open>\f\<close>, \<open>\x1c\<close>,
  \<open>\x1d\<close>, \<open>\x1e\<close> or \<open>\x85\<close>; the line ends are dropped, and text that ends with a
  line end has no empty last line.
\<close>

definition py_linebreak :: "char \<Rightarrow> bool" where
  "py_linebreak c = (py_ord c \<in> {10, 11, 12, 13, 28, 29, 30, 133})"

fun splitlines_from :: "string \<Rightarrow> string \<Rightarrow> string list" where
  "splitlines_from [] cur = (if cur = [] then [] else [cur])"
| "splitlines_from (c # cs) cur =
     (if py_linebreak c then
        (case cs of
           [] \<Rightarrow> cur # splitlines_from cs []
         | d # ds \<Rightarrow>
             if c = CHR 0x0D \<and> d = CHR 0x0A then cur # splitlines_from ds []
             else cur # splitlines_from cs [])
      else splitlines_from cs (cur @ [c]))"

definition py_splitlines :: "string \<Rightarrow> string list" where
  "py_splitlines s = splitlines_from s []"

text \<open>\<^verbatim>\<open>s.startswith(p)\<close> and \<^verbatim>\<open>s.endswith(p)\<close>\<close>

definition startswith :: "string \<Rightarrow> string \<Rightarrow> bool" where
  "startswith s p = (take (length p) s = p)"

definition endswith :: "string \<Rightarrow> string \<Rightarrow> bool" where
  "endswith s p = (length p \<le> length s \<and> drop (length s - length p) s = p)"

text \<open>
  \<^verbatim>\<open>s.upper()\<close>. Below 256 the letters \<open>a..z\<close> and \<open>0xe0..0xfe\<close> (but \<open>0xf7\<close>) move
  down by 32 and \<open>0xdf\<close> becomes \<open>SS\<close>. The upper cases of \<open>0xb5\<close> and \<open>0xff\<close> are
  above 255: the model leaves these two as they are, which keeps them outside ASCII,
  and that is all the one user of \<^verbatim>\<open>upper\<close>, the hexadecimal decoder, looks at.
\<close>

definition upper_char :: "char \<Rightarrow> string" where
  "upper_char c =
     (let n = py_ord c in
      if 97 \<le> n \<and> n \<le> 122 then [char_of (n - 32)]
      else if n = 223 then ''SS''
      else if 224 \<le> n \<and> n \<le> 254 \<and> n \<noteq> 247 then [char_of (n - 32)]
      else [c])"

definition py_upper :: "string \<Rightarrow> string" where
  "py_upper s = concat (map upper_char s)"

text \<open>
  The digits of an integer literal in base \<open>b\<close>, as \<^verbatim>\<open>int\<close> reads them: a digit first,
  then digits, each preceded by at most one underscore. \<^const>\<open>None\<close> is \<^verbatim>\<open>ValueError\<close>.
\<close>

definition digit_val :: "char \<Rightarrow> int option" where
  "digit_val c =
     (let n = py_ord c in
      if 48 \<le> n \<and> n \<le> 57 then Some (n - 48)
      else if 97 \<le> n \<and> n \<le> 122 then Some (n - 87)
      else if 65 \<le> n \<and> n \<le> 90 then Some (n - 55)
      else None)"

fun py_digits :: "int \<Rightarrow> string \<Rightarrow> int \<Rightarrow> int option" where
  "py_digits b [] acc = None"
| "py_digits b (c # cs) acc =
     (case digit_val c of
        None \<Rightarrow> None
      | Some d \<Rightarrow>
          if b \<le> d then None
          else (case cs of
                  [] \<Rightarrow> Some (acc * b + d)
                | c' # cs' \<Rightarrow>
                    if c' = CHR ''_'' then py_digits b cs' (acc * b + d)
                    else py_digits b cs (acc * b + d)))"

text \<open>An optional sign in front of a literal.\<close>

definition py_sign :: "string \<Rightarrow> int \<times> string" where
  "py_sign s =
     (case s of
        [] \<Rightarrow> (1, s)
      | c # cs \<Rightarrow> if c = CHR ''+'' then (1, cs) else if c = CHR ''-'' then (-1, cs) else (1, s))"

text \<open>
  \<^verbatim>\<open>int(s, base=0)\<close>: the base is read off the prefix (\<open>0x\<close>, \<open>0o\<close>, \<open>0b\<close>, in either
  case, optionally followed by one underscore); any other literal is decimal, and if it
  starts with \<open>0\<close> its value must be zero. \<^verbatim>\<open>int\<close> also strips white space around the
  literal; the source only passes tokens of \<^verbatim>\<open>split()\<close>, which have none.
\<close>

definition py_int_base0 :: "string \<Rightarrow> int option" where
  "py_int_base0 s =
     (let (sign, r) = py_sign s in
      case r of
        c # x # body \<Rightarrow>
          if c = CHR ''0'' \<and> (x = CHR ''x'' \<or> x = CHR ''X'' \<or> x = CHR ''o'' \<or> x = CHR ''O''
                              \<or> x = CHR ''b'' \<or> x = CHR ''B'') then
            (let b = (if x = CHR ''x'' \<or> x = CHR ''X'' then 16
                      else if x = CHR ''o'' \<or> x = CHR ''O'' then 8 else 2);
                 body' = (case body of [] \<Rightarrow> body | u # us \<Rightarrow> if u = CHR ''_'' then us else body)
             in map_option (\<lambda>v. sign * v) (py_digits b body' 0))
          else if c = CHR ''0'' then
            (case py_digits 10 r 0 of
               None \<Rightarrow> None
             | Some v \<Rightarrow> if v = 0 then Some 0 else None)
          else map_option (\<lambda>v. sign * v) (py_digits 10 r 0)
      | _ \<Rightarrow> map_option (\<lambda>v. sign * v) (py_digits 10 r 0))"

text \<open>\<^verbatim>\<open>int(s)\<close>: decimal, with leading zeros allowed.\<close>

definition py_int :: "string \<Rightarrow> int option" where
  "py_int s = (let (sign, r) = py_sign s in map_option (\<lambda>v. sign * v) (py_digits 10 r 0))"

section \<open>The decoders of Python's \<^verbatim>\<open>base64\<close> module\<close>

text \<open>
  \<^verbatim>\<open>base64.b16decode\<close>, \<^verbatim>\<open>base64.b32decode\<close> and \<^verbatim>\<open>base64.b64decode\<close> with their
  default arguments, as the source calls them. Each first turns its \<^verbatim>\<open>str\<close> argument
  into ASCII bytes (\<^verbatim>\<open>ValueError\<close> on a character outside ASCII) and raises
  \<^verbatim>\<open>binascii.Error\<close> on a malformed text.
\<close>

definition is_ascii :: "string \<Rightarrow> bool" where
  "is_ascii s = list_all (\<lambda>c. py_ord c < 128) s"

definition hex_val :: "char \<Rightarrow> int option" where
  "hex_val c =
     (let n = py_ord c in
      if 48 \<le> n \<and> n \<le> 57 then Some (n - 48)
      else if 65 \<le> n \<and> n \<le> 70 then Some (n - 55)
      else None)"

fun unhexlify :: "string \<Rightarrow> byte list option" where
  "unhexlify [] = Some []"
| "unhexlify [c] = None"
| "unhexlify (c # d # cs) =
     (case (hex_val c, hex_val d, unhexlify cs) of
        (Some h, Some l, Some bs) \<Rightarrow> Some (word_of_int (16 * h + l) # bs)
      | _ \<Rightarrow> None)"

text \<open>
  \<^verbatim>\<open>b16decode(s)\<close> without case folding: only \<open>0-9A-F\<close>, and an even number of them.
\<close>

definition b16decode :: "string \<Rightarrow> byte list result" where
  "b16decode s =
     (if \<not> is_ascii s then Raises ValueError
      else if list_ex (\<lambda>c. hex_val c = None) s then Raises BinasciiError
      else (case unhexlify s of None \<Rightarrow> Raises BinasciiError | Some bs \<Rightarrow> Returns bs))"

definition b32_val :: "char \<Rightarrow> int option" where
  "b32_val c =
     (let n = py_ord c in
      if 65 \<le> n \<and> n \<le> 90 then Some (n - 65)
      else if 50 \<le> n \<and> n \<le> 55 then Some (n - 24)
      else None)"

text \<open>The inner loop of \<^verbatim>\<open>b32decode\<close>: \<^verbatim>\<open>acc = (acc << 5) + b32rev[c]\<close> over one group.\<close>

fun b32_acc :: "string \<Rightarrow> int \<Rightarrow> int option" where
  "b32_acc [] acc = Some acc"
| "b32_acc (c # cs) acc =
     (case b32_val c of None \<Rightarrow> None | Some v \<Rightarrow> b32_acc cs (acc * 32 + v))"

text \<open>\<^verbatim>\<open>acc.to_bytes(5)\<close>, big-endian.\<close>

definition to_bytes5 :: "int \<Rightarrow> byte list" where
  "to_bytes5 acc = map (\<lambda>k. word_of_int (acc div 256 ^ k mod 256)) [4, 3, 2, 1, 0 :: nat]"

text \<open>
  The outer loop of \<^verbatim>\<open>b32decode\<close>, over groups of eight characters; it returns the
  bytes decoded so far and the accumulator of the last group.
\<close>

function b32_quanta :: "string \<Rightarrow> byte list \<Rightarrow> int \<Rightarrow> (byte list \<times> int) option" where
  "b32_quanta s decoded acc =
     (if s = [] then Some (decoded, acc)
      else (case b32_acc (take 8 s) 0 of
              None \<Rightarrow> None
            | Some acc' \<Rightarrow> b32_quanta (drop 8 s) (decoded @ to_bytes5 acc') acc'))"
  by pat_completeness auto
termination
  by (relation "measure (\<lambda>(s, decoded, acc). length s)") auto

declare b32_quanta.simps [simp del]

text \<open>
  \<^verbatim>\<open>b32decode(s)\<close>: the length must be a multiple of eight, so a text whose \<open>=\<close>
  padding was left off is refused.
\<close>

definition b32decode :: "string \<Rightarrow> byte list result" where
  "b32decode s =
     (if \<not> is_ascii s then Raises ValueError
      else if length s mod 8 \<noteq> 0 then Raises BinasciiError
      else
        (let l = length s;
             s' = rev (dropWhile (\<lambda>c. c = CHR ''='') (rev s));
             padchars = l - length s'
         in case b32_quanta s' [] 0 of
              None \<Rightarrow> Raises BinasciiError
            | Some (decoded, acc) \<Rightarrow>
                if padchars \<notin> {0, 1, 3, 4, 6} then Raises BinasciiError
                else if padchars \<noteq> 0 \<and> decoded \<noteq> [] then
                  (let last_bytes = to_bytes5 (acc * 2 ^ (5 * padchars));
                       leftover = (43 - 5 * padchars) div 8
                   in Returns (take (length decoded - 5) decoded @ take leftover last_bytes))
                else Returns decoded))"

definition b64_val :: "char \<Rightarrow> int option" where
  "b64_val c =
     (let n = py_ord c in
      if 65 \<le> n \<and> n \<le> 90 then Some (n - 65)
      else if 97 \<le> n \<and> n \<le> 122 then Some (n - 71)
      else if 48 \<le> n \<and> n \<le> 57 then Some (n + 4)
      else if n = 43 then Some 62
      else if n = 47 then Some 63
      else None)"

text \<open>
  \<^verbatim>\<open>binascii.a2b_base64\<close> in its default, lenient mode, which \<^verbatim>\<open>b64decode\<close> calls:
  characters outside the alphabet are skipped, a complete run of padding ends the
  input, and the data must end on a group boundary. The arguments are the position in
  the group of four, the bits left over from the previous character, the padding
  characters seen in a row, and the bytes produced.
\<close>

fun a2b_base64 :: "string \<Rightarrow> nat \<Rightarrow> int \<Rightarrow> nat \<Rightarrow> byte list \<Rightarrow> byte list option" where
  "a2b_base64 [] quad_pos leftchar pads acc = (if quad_pos \<noteq> 0 then None else Some acc)"
| "a2b_base64 (c # cs) quad_pos leftchar pads acc =
     (if c = CHR ''='' then
        (if 2 \<le> quad_pos \<and> 4 \<le> quad_pos + (pads + 1) then Some acc
         else a2b_base64 cs quad_pos leftchar (if 2 \<le> quad_pos then pads + 1 else pads) acc)
      else (case b64_val c of
              None \<Rightarrow> a2b_base64 cs quad_pos leftchar pads acc
            | Some v \<Rightarrow>
                if quad_pos = 0 then a2b_base64 cs 1 v 0 acc
                else if quad_pos = 1 then
                  a2b_base64 cs 2 (v mod 16) 0 (acc @ [word_of_int (leftchar * 4 + v div 16)])
                else if quad_pos = 2 then
                  a2b_base64 cs 3 (v mod 4) 0 (acc @ [word_of_int (leftchar * 16 + v div 4)])
                else a2b_base64 cs 0 0 0 (acc @ [word_of_int (leftchar * 64 + v)])))"

definition b64decode :: "string \<Rightarrow> byte list result" where
  "b64decode s =
     (if \<not> is_ascii s then Raises ValueError
      else (case a2b_base64 s 0 0 0 [] of None \<Rightarrow> Raises BinasciiError | Some bs \<Rightarrow> Returns bs))"

section \<open>Byte-string literals\<close>

text \<open>
  The four patterns of lines 35-38, \<^verbatim>\<open>name\((.*?)\)\<close>, under \<^verbatim>\<open>match\<close>: the text must
  start with the name and an opening parenthesis, and the group is what stands before
  the first closing parenthesis after it (a dot matches no line feed). What follows the
  closing parenthesis is not looked at.
\<close>

definition re_match_paren :: "string \<Rightarrow> string \<Rightarrow> string option" where
  "re_match_paren name s =
     (if startswith s (name @ ''('') then
        (let r = drop (length name + 1) s;
             g = takeWhile (\<lambda>c. c \<noteq> CHR '')'') r
         in if CHR '')'' \<in> set r \<and> CHR 0x0A \<notin> set g then Some g else None)
      else None)"

text \<open>\<^verbatim>\<open>a or b\<close> on two match results.\<close>

definition or_else :: "'a option \<Rightarrow> 'a option \<Rightarrow> 'a option" where
  "or_else x y = (case x of Some v \<Rightarrow> Some v | None \<Rightarrow> y)"

text \<open>A decoder's result paired with the arguments left over.\<close>

definition with_rest :: "byte list result \<Rightarrow> string list \<Rightarrow> (byte list \<times> string list) result" where
  "with_rest r rest =
     (case r of Returns v \<Rightarrow> Returns (v, rest) | Raises e \<Rightarrow> Raises e | Diverges \<Rightarrow> Diverges)"

text \<open>
  \<^verbatim>\<open>parseByteConstant\<close>, lines 40-53. \<^verbatim>\<open>args[0]\<close> and \<^verbatim>\<open>args[1]\<close> raise
  \<^verbatim>\<open>IndexError\<close> on a list that is too short.
\<close>

definition parseByteConstant :: "string list \<Rightarrow> (byte list \<times> string list) result" where
  "parseByteConstant args =
     (case args of
        [] \<Rightarrow> Raises IndexError
      | a0 # rest \<Rightarrow>
          if a0 = ''b32'' \<or> a0 = ''base32'' then
            (case rest of [] \<Rightarrow> Raises IndexError | a1 # rest2 \<Rightarrow> with_rest (b32decode a1) rest2)
          else if a0 = ''b64'' \<or> a0 = ''base64'' then
            (case rest of [] \<Rightarrow> Raises IndexError | a1 # rest2 \<Rightarrow> with_rest (b64decode a1) rest2)
          else if startswith a0 ''0x'' then with_rest (b16decode (py_upper (drop 2 a0))) rest
          else (case or_else (re_match_paren ''b32'' a0) (re_match_paren ''base32'' a0) of
                  Some g \<Rightarrow> with_rest (b32decode g) rest
                | None \<Rightarrow>
                    (case or_else (re_match_paren ''b64'' a0) (re_match_paren ''base64'' a0) of
                       Some g \<Rightarrow> with_rest (b64decode g) rest
                     | None \<Rightarrow> Raises (CouldNotParseByteConstant args))))"

section \<open>The session\<close>

text \<open>
  One record of \<^verbatim>\<open>langspec.json\<close>: the file is not part of the sources, so its content
  is a parameter. \<^verbatim>\<open>ArgEnum\<close> is an optional key.
\<close>

record opspec =
  Name :: string
  Opcode :: int
  ArgEnum :: "string list option"

text \<open>
  What the assembler takes from outside: the list \<^verbatim>\<open>spec['Ops']\<close> read by
  \<^verbatim>\<open>load_langspec\<close>, and \<^verbatim>\<open>algosdk.encoding.decode_address\<close> (\<^const>\<open>None\<close> when it
  raises).
\<close>

record externals =
  langspec_Ops :: "opspec list"
  decode_address :: "string \<Rightarrow> byte list option"

text \<open>\<^verbatim>\<open>ops_by_name\<close>, lines 20-21: a later record of the same name replaces an earlier one.\<close>

definition ops_by_name :: "opspec list \<Rightarrow> string \<Rightarrow> opspec option" where
  "ops_by_name ops = fold (\<lambda>x m. m(Name x \<mapsto> x)) ops Map.empty"

record Assembler =
  out :: "byte list"
  intc :: "int list"
  intcWritten :: bool
  bytec :: "byte list list"
  bytecWritten :: bool
  sourceName :: string
  sourceLine :: nat
  labels :: "(string \<times> nat) list"
  labelReferences :: "(nat \<times> nat \<times> string) list"
  spec :: "opspec list"
  opByName :: "string \<Rightarrow> opspec option"
  version :: int

text \<open>\<^verbatim>\<open>Assembler.__init__\<close>, lines 74-86. The last line stores the constant 1.\<close>

definition new_Assembler :: "externals \<Rightarrow> string \<Rightarrow> int \<Rightarrow> Assembler" where
  "new_Assembler ext sourceName_arg version_arg =
     \<lparr> out = [], intc = [], intcWritten = False, bytec = [], bytecWritten = False,
       sourceName = sourceName_arg, sourceLine = 0, labels = [], labelReferences = [],
       spec = langspec_Ops ext, opByName = ops_by_name (langspec_Ops ext),
       version = 1 \<rparr>"

text \<open>\<^verbatim>\<open>self.out.write(bs)\<close>\<close>

definition out_write :: "Assembler \<Rightarrow> byte list \<Rightarrow> Assembler" where
  "out_write a bs = a\<lparr>out := out a @ bs\<rparr>"

text \<open>
  \<^verbatim>\<open>bytes([...])\<close> of a list of integers: \<^verbatim>\<open>ValueError\<close> (here \<^const>\<open>None\<close>) unless
  every element is in \<open>range(256)\<close>.
\<close>

definition py_bytes :: "int list \<Rightarrow> byte list option" where
  "py_bytes xs = (if list_all (\<lambda>x. 0 \<le> x \<and> x < 256) xs then Some (map word_of_int xs) else None)"

section \<open>References to the constant pools\<close>

text \<open>The tables \<^verbatim>\<open>_intc_ops\<close>, \<^verbatim>\<open>_bytec_ops\<close> and \<^verbatim>\<open>_arg_ops\<close>, lines 55-72.\<close>

definition intc_ops :: "int \<Rightarrow> byte list option" where
  "intc_ops = [0 \<mapsto> [0x22], 1 \<mapsto> [0x23], 2 \<mapsto> [0x24], 3 \<mapsto> [0x25]]"

definition bytec_ops :: "int \<Rightarrow> byte list option" where
  "bytec_ops = [0 \<mapsto> [0x28], 1 \<mapsto> [0x29], 2 \<mapsto> [0x2a], 3 \<mapsto> [0x2b]]"

definition arg_ops :: "int \<Rightarrow> byte list option" where
  "arg_ops = [0 \<mapsto> [0x2d], 1 \<mapsto> [0x2e], 2 \<mapsto> [0x2f], 3 \<mapsto> [0x30]]"

text \<open>
  \<^verbatim>\<open>write_intc\<close>, lines 96-105. The test \<^verbatim>\<open>if optimizedOp:\<close> holds for every entry of
  the table, each being a non-empty \<^verbatim>\<open>bytes\<close>.
\<close>

definition write_intc :: "Assembler \<Rightarrow> int \<Rightarrow> unit result \<times> Assembler" where
  "write_intc a constIndex =
     (case intc_ops constIndex of
        Some optimizedOp \<Rightarrow> (Returns (), out_write a optimizedOp)
      | None \<Rightarrow>
          if constIndex > 0xff then (Raises TooManyIntConstants, a)
          else if constIndex < 0 then (Raises NegativeIntcIndex, a)
          else (case py_bytes [0x21, constIndex] of
                  None \<Rightarrow> (Raises ValueError, a)
                | Some bs \<Rightarrow> (Returns (), out_write a bs)))"

text \<open>\<^verbatim>\<open>write_bytec\<close>, lines 139-148.\<close>

definition write_bytec :: "Assembler \<Rightarrow> int \<Rightarrow> unit result \<times> Assembler" where
  "write_bytec a constIndex =
     (case bytec_ops constIndex of
        Some optimizedOp \<Rightarrow> (Returns (), out_write a optimizedOp)
      | None \<Rightarrow>
          if constIndex > 0xff then (Raises TooManyByteConstants, a)
          else if constIndex < 0 then (Raises NegativeBytecIndex, a)
          else (case py_bytes [0x27, constIndex] of
                  None \<Rightarrow> (Raises ValueError, a)
                | Some bs \<Rightarrow> (Returns (), out_write a bs)))"

text \<open>
  The error kind \<^verbatim>\<open>ConstantPoolOverflow\<close> of the specification (section 7): more than
  256 entries in a pool, or a negative constant index.
\<close>

definition ConstantPoolOverflow :: "error \<Rightarrow> bool" where
  "ConstantPoolOverflow e \<longleftrightarrow>
     e = TooManyIntConstants \<or> e = NegativeIntcIndex \<or>
     e = TooManyByteConstants \<or> e = NegativeBytecIndex"

section \<open>Interning and the handlers of the integer pool\<close>

text \<open>
  The scan of lines 111-115 and 157-161: the index of the first entry equal to the
  value, or nothing (\<^verbatim>\<open>constIndex\<close> stays \<^verbatim>\<open>None\<close>).
\<close>

fun find_from :: "'a \<Rightarrow> 'a list \<Rightarrow> nat \<Rightarrow> nat option" where
  "find_from v [] i = None"
| "find_from v (x # xs) i = (if x = v then Some i else find_from v xs (Suc i))"

definition find_const :: "'a \<Rightarrow> 'a list \<Rightarrow> nat option" where
  "find_const v pool = find_from v pool 0"

text \<open>
  Lines 111-118 and 157-164: the index the value gets, and the pool afterwards (the
  value is appended on a miss).
\<close>

definition intern :: "'a \<Rightarrow> 'a list \<Rightarrow> nat \<times> 'a list" where
  "intern v pool =
     (case find_const v pool of
        Some i \<Rightarrow> (i, pool)
      | None \<Rightarrow> (length pool, pool @ [v]))"

text \<open>\<^verbatim>\<open>assemble_int\<close>, lines 107-119.\<close>

definition assemble_int ::
    "externals \<Rightarrow> Assembler \<Rightarrow> opspec option \<Rightarrow> string list \<Rightarrow> unit result \<times> Assembler" where
  "assemble_int ext a op args =
     (if length args \<noteq> 1 then (Raises IntExpectsOneArg, a)
      else (case py_int_base0 (args ! 0) of
              None \<Rightarrow> (Raises ValueError, a)
            | Some val \<Rightarrow>
                (let (constIndex, pool) = intern val (intc a)
                 in write_intc (a\<lparr>intc := pool\<rparr>) (int constIndex))))"

text \<open>\<^verbatim>\<open>assemble_intc\<close>, lines 121-125.\<close>

definition assemble_intc ::
    "externals \<Rightarrow> Assembler \<Rightarrow> opspec option \<Rightarrow> string list \<Rightarrow> unit result \<times> Assembler" where
  "assemble_intc ext a op args =
     (if length args \<noteq> 1 then (Raises IntcExpectsOneArg, a)
      else (case py_int_base0 (args ! 0) of
              None \<Rightarrow> (Raises ValueError, a)
            | Some val \<Rightarrow> write_intc a val))"

text \<open>
  \<^verbatim>\<open>write_intcblock\<close>, lines 127-131, on the buffer it is given: the buffer after the
  writes, if every \<^verbatim>\<open>to_varuint\<close> returns.
\<close>

fun write_varuints :: "byte list \<Rightarrow> int list \<Rightarrow> byte list option" where
  "write_varuints buf [] = Some buf"
| "write_varuints buf (x # xs) =
     (case to_varuint x of None \<Rightarrow> None | Some b \<Rightarrow> write_varuints (buf @ b) xs)"

definition write_intcblock :: "byte list \<Rightarrow> int list \<Rightarrow> byte list option" where
  "write_intcblock buf pool =
     (case to_varuint (int (length pool)) of
        None \<Rightarrow> None
      | Some n \<Rightarrow> write_varuints ((buf @ [0x20]) @ n) pool)"

text \<open>\<^verbatim>\<open>[int(x, base=0) for x in args]\<close>\<close>

fun parse_ints :: "string list \<Rightarrow> int list option" where
  "parse_ints [] = Some []"
| "parse_ints (x # xs) =
     (case py_int_base0 x of
        None \<Rightarrow> None
      | Some v \<Rightarrow> (case parse_ints xs of None \<Rightarrow> None | Some vs \<Rightarrow> Some (v # vs)))"

text \<open>\<^verbatim>\<open>assemble_intcblock\<close>, lines 133-137.\<close>

definition assemble_intcblock ::
    "externals \<Rightarrow> Assembler \<Rightarrow> opspec option \<Rightarrow> string list \<Rightarrow> unit result \<times> Assembler" where
  "assemble_intcblock ext a op args =
     (case parse_ints args of
        None \<Rightarrow> (Raises ValueError, a)
      | Some pool \<Rightarrow>
          (case write_intcblock (out a) pool of
             None \<Rightarrow> (Diverges, a)
           | Some buf \<Rightarrow> (Returns (), a\<lparr>out := buf, intcWritten := True, intc := pool\<rparr>)))"

section \<open>The handlers of the byte-string pool\<close>

text \<open>\<^verbatim>\<open>assemble_bytec\<close>, lines 150-154.\<close>

definition assemble_bytec ::
    "externals \<Rightarrow> Assembler \<Rightarrow> opspec option \<Rightarrow> string list \<Rightarrow> unit result \<times> Assembler" where
  "assemble_bytec ext a op args =
     (if length args \<noteq> 1 then (Raises BytecExpectsOneArg, a)
      else (case py_int (args ! 0) of
              None \<Rightarrow> (Raises ValueError, a)
            | Some val \<Rightarrow> write_bytec a val))"

text \<open>\<^verbatim>\<open>bytestring\<close>, lines 156-165.\<close>

definition bytestring :: "Assembler \<Rightarrow> byte list \<Rightarrow> unit result \<times> Assembler" where
  "bytestring a val =
     (let (constIndex, pool) = intern val (bytec a)
      in write_bytec (a\<lparr>bytec := pool\<rparr>) (int constIndex))"

text \<open>\<^verbatim>\<open>assemble_addr\<close>, lines 167-171.\<close>

definition assemble_addr ::
    "externals \<Rightarrow> Assembler \<Rightarrow> opspec option \<Rightarrow> string list \<Rightarrow> unit result \<times> Assembler" where
  "assemble_addr ext a op args =
     (if length args \<noteq> 1 then (Raises AddrExpectsOneArg, a)
      else (case decode_address ext (args ! 0) of
              None \<Rightarrow> (Raises DecodeAddressError, a)
            | Some addr \<Rightarrow> bytestring a addr))"

text \<open>\<^verbatim>\<open>assemble_byte\<close>, lines 173-177. The arguments left over by the parser are dropped.\<close>

definition assemble_byte ::
    "externals \<Rightarrow> Assembler \<Rightarrow> opspec option \<Rightarrow> string list \<Rightarrow> unit result \<times> Assembler" where
  "assemble_byte ext a op args =
     (if length args < 1 then (Raises ByteExpectsAnArgs, a)
      else (case parseByteConstant args of
              Returns (val, _) \<Rightarrow> bytestring a val
            | Raises e \<Rightarrow> (Raises e, a)
            | Diverges \<Rightarrow> (Diverges, a)))"

text \<open>\<^verbatim>\<open>write_bytecblock\<close>, lines 179-184, on the buffer it is given.\<close>

fun write_bytestrings :: "byte list \<Rightarrow> byte list list \<Rightarrow> byte list option" where
  "write_bytestrings buf [] = Some buf"
| "write_bytestrings buf (x # xs) =
     (case to_varuint (int (length x)) of
        None \<Rightarrow> None
      | Some n \<Rightarrow> write_bytestrings ((buf @ n) @ x) xs)"

definition write_bytecblock :: "byte list \<Rightarrow> byte list list \<Rightarrow> byte list option" where
  "write_bytecblock buf pool =
     (case to_varuint (int (length pool)) of
        None \<Rightarrow> None
      | Some n \<Rightarrow> write_bytestrings ((buf @ [0x26]) @ n) pool)"

lemma parseByteConstant_shorter:
  "parseByteConstant args = Returns (val, rest) \<Longrightarrow> length rest < length args"
  by (auto simp: parseByteConstant_def with_rest_def
           split: list.splits if_splits result.splits option.splits)

text \<open>The loop of \<^verbatim>\<open>assemble_bytecblock\<close>, lines 187-190.\<close>

function parse_byte_constants :: "string list \<Rightarrow> byte list list \<Rightarrow> byte list list result" where
  "parse_byte_constants args pool =
     (if args = [] then Returns pool
      else (case parseByteConstant args of
              Returns (val, rest) \<Rightarrow> parse_byte_constants rest (pool @ [val])
            | Raises e \<Rightarrow> Raises e
            | Diverges \<Rightarrow> Diverges))"
  by pat_completeness auto
termination
  by (relation "measure (\<lambda>(args, pool). length args)")
     (auto dest: parseByteConstant_shorter)

declare parse_byte_constants.simps [simp del]

text \<open>\<^verbatim>\<open>assemble_bytecblock\<close>, lines 186-193.\<close>

definition assemble_bytecblock ::
    "externals \<Rightarrow> Assembler \<Rightarrow> opspec option \<Rightarrow> string list \<Rightarrow> unit result \<times> Assembler" where
  "assemble_bytecblock ext a op args =
     (case parse_byte_constants args [] of
        Raises e \<Rightarrow> (Raises e, a)
      | Diverges \<Rightarrow> (Diverges, a)
      | Returns pool \<Rightarrow>
          (case write_bytecblock (out a) pool of
             None \<Rightarrow> (Diverges, a)
           | Some buf \<Rightarrow> (Returns (), a\<lparr>out := buf, bytecWritten := True, bytec := pool\<rparr>)))"

section \<open>The other handlers\<close>

text \<open>
  \<^verbatim>\<open>op['Name']\<close>, \<^verbatim>\<open>op['Opcode']\<close> and \<^verbatim>\<open>op['ArgEnum']\<close> on the result of
  \<^verbatim>\<open>self.opByName.get(..)\<close>: subscripting \<^verbatim>\<open>None\<close> is a \<^verbatim>\<open>TypeError\<close>, a record
  without an \<^verbatim>\<open>ArgEnum\<close> a \<^verbatim>\<open>KeyError\<close>.
\<close>

definition op_Name :: "opspec option \<Rightarrow> string result" where
  "op_Name op = (case op of None \<Rightarrow> Raises TypeError | Some x \<Rightarrow> Returns (Name x))"

definition op_Opcode :: "opspec option \<Rightarrow> int result" where
  "op_Opcode op = (case op of None \<Rightarrow> Raises TypeError | Some x \<Rightarrow> Returns (Opcode x))"

definition op_ArgEnum :: "opspec option \<Rightarrow> string list result" where
  "op_ArgEnum op =
     (case op of
        None \<Rightarrow> Raises TypeError
      | Some x \<Rightarrow> (case ArgEnum x of None \<Rightarrow> Raises KeyError | Some names \<Rightarrow> Returns names))"

text \<open>\<^verbatim>\<open>raise Exception(fmt.format(op['Name'], ...))\<close>: the message needs the name.\<close>

definition raise_named :: "opspec option \<Rightarrow> (string \<Rightarrow> error) \<Rightarrow> Assembler \<Rightarrow> unit result \<times> Assembler" where
  "raise_named op mk a =
     (case op_Name op of
        Returns n \<Rightarrow> (Raises (mk n), a)
      | Raises e \<Rightarrow> (Raises e, a)
      | Diverges \<Rightarrow> (Diverges, a))"

text \<open>\<^verbatim>\<open>self.out.write(bytes(xs))\<close>\<close>

definition write_bytes :: "Assembler \<Rightarrow> int list \<Rightarrow> unit result \<times> Assembler" where
  "write_bytes a xs =
     (case py_bytes xs of
        None \<Rightarrow> (Raises ValueError, a)
      | Some bs \<Rightarrow> (Returns (), out_write a bs))"

text \<open>\<^verbatim>\<open>assemble_arg\<close>, lines 195-207.\<close>

definition assemble_arg ::
    "externals \<Rightarrow> Assembler \<Rightarrow> opspec option \<Rightarrow> string list \<Rightarrow> unit result \<times> Assembler" where
  "assemble_arg ext a op args =
     (if length args \<noteq> 1 then raise_named op (\<lambda>n. ExpectsOneArgGot n args) a
      else (case py_int (args ! 0) of
              None \<Rightarrow> (Raises ValueError, a)
            | Some constIndex \<Rightarrow>
                (case arg_ops constIndex of
                   Some optimizedOp \<Rightarrow> (Returns (), out_write a optimizedOp)
                 | None \<Rightarrow>
                     if constIndex > 0xff then (Raises TooManyArgs, a)
                     else if constIndex < 0 then (Raises NegativeArgIndex, a)
                     else write_bytes a [0x2c, constIndex])))"

text \<open>
  The loop shared by \<^verbatim>\<open>assemble_txn\<close>, \<^verbatim>\<open>assemble_gtxn\<close> and \<^verbatim>\<open>assemble_global\<close>:
  the first position of the name in \<^verbatim>\<open>op['ArgEnum']\<close>, the bytes written there, or the
  \<^verbatim>\<open>unknown arg\<close> error. \<open>pre\<close> holds what stands between the opcode and the
  position.
\<close>

definition write_enum ::
    "Assembler \<Rightarrow> opspec option \<Rightarrow> int list \<Rightarrow> string \<Rightarrow> unit result \<times> Assembler" where
  "write_enum a op pre arg =
     (case op_ArgEnum op of
        Raises e \<Rightarrow> (Raises e, a)
      | Diverges \<Rightarrow> (Diverges, a)
      | Returns names \<Rightarrow>
          (case find_const arg names of
             Some i \<Rightarrow>
               (case op_Opcode op of
                  Returns opc \<Rightarrow> write_bytes a ((opc # pre) @ [int i])
                | Raises e \<Rightarrow> (Raises e, a)
                | Diverges \<Rightarrow> (Diverges, a))
           | None \<Rightarrow> raise_named op (\<lambda>n. UnknownArg n arg) a))"

text \<open>\<^verbatim>\<open>assemble_txn\<close>, lines 209-216.\<close>

definition assemble_txn ::
    "externals \<Rightarrow> Assembler \<Rightarrow> opspec option \<Rightarrow> string list \<Rightarrow> unit result \<times> Assembler" where
  "assemble_txn ext a op args =
     (if length args \<noteq> 1 then raise_named op ExpectsOneArgument a
      else write_enum a op [] (args ! 0))"

text \<open>\<^verbatim>\<open>assemble_gtxn\<close>, lines 218-226.\<close>

definition assemble_gtxn ::
    "externals \<Rightarrow> Assembler \<Rightarrow> opspec option \<Rightarrow> string list \<Rightarrow> unit result \<times> Assembler" where
  "assemble_gtxn ext a op args =
     (if length args \<noteq> 2 then raise_named op ExpectsTwoArguments a
      else (case py_int (args ! 0) of
              None \<Rightarrow> (Raises ValueError, a)
            | Some gtid \<Rightarrow> write_enum a op [gtid] (args ! 1)))"

text \<open>\<^verbatim>\<open>assemble_global\<close>, lines 228-235.\<close>

definition assemble_global ::
    "externals \<Rightarrow> Assembler \<Rightarrow> opspec option \<Rightarrow> string list \<Rightarrow> unit result \<times> Assembler" where
  "assemble_global ext a op args =
     (if length args \<noteq> 1 then raise_named op ExpectsOneArgument a
      else write_enum a op [] (args ! 0))"

text \<open>\<^verbatim>\<open>referenceLabel\<close>, lines 93-94.\<close>

definition referenceLabel :: "Assembler \<Rightarrow> nat \<Rightarrow> nat \<Rightarrow> string \<Rightarrow> Assembler" where
  "referenceLabel a line pc label =
     a\<lparr>labelReferences := labelReferences a @ [(line, pc, label)]\<rparr>"

text \<open>
  \<^verbatim>\<open>assemble_bnz\<close>, lines 237-239. There is no test of the number of arguments:
  \<^verbatim>\<open>args[0]\<close> raises \<^verbatim>\<open>IndexError\<close> on an empty list, and further arguments are not
  looked at.
\<close>

definition assemble_bnz ::
    "externals \<Rightarrow> Assembler \<Rightarrow> opspec option \<Rightarrow> string list \<Rightarrow> unit result \<times> Assembler" where
  "assemble_bnz ext a op args =
     (case args of
        [] \<Rightarrow> (Raises IndexError, a)
      | label # _ \<Rightarrow>
          (Returns (),
           out_write (referenceLabel a (sourceLine a) (length (out a)) label) [0x40, 0x00, 0x00]))"

text \<open>\<^verbatim>\<open>_load_store\<close>, lines 241-245, and its two callers.\<close>

definition load_store ::
    "externals \<Rightarrow> Assembler \<Rightarrow> opspec option \<Rightarrow> string list \<Rightarrow> unit result \<times> Assembler" where
  "load_store ext a op args =
     (if length args \<noteq> 1 then raise_named op (\<lambda>n. ExpectsOneArgGot n args) a
      else (case py_int (args ! 0) of
              None \<Rightarrow> (Raises ValueError, a)
            | Some arg \<Rightarrow>
                (case op_Opcode op of
                   Returns opc \<Rightarrow> write_bytes a [opc, arg]
                 | Raises e \<Rightarrow> (Raises e, a)
                 | Diverges \<Rightarrow> (Diverges, a))))"

definition assemble_load ::
    "externals \<Rightarrow> Assembler \<Rightarrow> opspec option \<Rightarrow> string list \<Rightarrow> unit result \<times> Assembler" where
  "assemble_load ext a op args = load_store ext a op args"

definition assemble_store ::
    "externals \<Rightarrow> Assembler \<Rightarrow> opspec option \<Rightarrow> string list \<Rightarrow> unit result \<times> Assembler" where
  "assemble_store ext a op args = load_store ext a op args"

section \<open>Lines, labels and the final program\<close>

text \<open>\<^verbatim>\<open>setLabel\<close>, lines 88-91. The dictionary \<^verbatim>\<open>self.labels\<close> is a list of pairs with
  distinct keys, in the order of insertion.\<close>

definition setLabel :: "Assembler \<Rightarrow> string \<Rightarrow> unit result \<times> Assembler" where
  "setLabel a label =
     (if map_of (labels a) label \<noteq> None then (Raises (DuplicateLabel label), a)
      else (Returns (), a\<lparr>labels := labels a @ [(label, length (out a))]\<rparr>))"

type_synonym handler =
  "externals \<Rightarrow> Assembler \<Rightarrow> opspec option \<Rightarrow> string list \<Rightarrow> unit result \<times> Assembler"

text \<open>
  \<^verbatim>\<open>getattr(self, 'assemble_' + name, None)\<close>: the attributes of the class whose names
  start with \<^verbatim>\<open>assemble_\<close> are these fourteen methods (\<^verbatim>\<open>assembleLine\<close> and
  \<^verbatim>\<open>assembleLineSource\<close> have no underscore there).
\<close>

definition assemble_method :: "string \<Rightarrow> handler option" where
  "assemble_method name =
     map_of
       [(''int'', assemble_int), (''intc'', assemble_intc), (''intcblock'', assemble_intcblock),
        (''bytec'', assemble_bytec), (''addr'', assemble_addr), (''byte'', assemble_byte),
        (''bytecblock'', assemble_bytecblock), (''arg'', assemble_arg), (''txn'', assemble_txn),
        (''gtxn'', assemble_gtxn), (''global'', assemble_global), (''bnz'', assemble_bnz),
        (''load'', assemble_load), (''store'', assemble_store)]
       name"

text \<open>
  Lines 262-266: the tokens before the first one that starts with \<open>//\<close>, or
  \<^verbatim>\<open>None\<close> when there is no such token.
\<close>

definition comment_cut :: "string list \<Rightarrow> string list option" where
  "comment_cut parts =
     (if list_ex (\<lambda>p. startswith p ''//'') parts
      then Some (takeWhile (\<lambda>p. \<not> startswith p ''//'') parts)
      else None)"

text \<open>\<^verbatim>\<open>assembleLine\<close>, lines 251-282. The call of \<^verbatim>\<open>logging.debug\<close> has no effect on
  the session.\<close>

definition assembleLine :: "externals \<Rightarrow> Assembler \<Rightarrow> string \<Rightarrow> unit result \<times> Assembler" where
  "assembleLine ext a rawline =
     (if rawline = [] then (Returns (), a)
      else
        (let line = py_strip rawline in
         if line = [] then (Returns (), a)
         else if startswith line ''//'' then (Returns (), a)
         else
           (let parts = py_split line in
            if parts = [] then (Raises (CouldNotParseLine rawline), a)
            else
              (let parts = (case comment_cut parts of
                              None \<Rightarrow> parts
                            | Some newparts \<Rightarrow> if newparts \<noteq> [] then newparts else parts);
                   op = opByName a (hd parts)
               in case assemble_method (hd parts) of
                    Some fn \<Rightarrow> fn ext a op (tl parts)
                  | None \<Rightarrow>
                      (case op of
                         Some x \<Rightarrow> write_bytes a [Opcode x]
                       | None \<Rightarrow>
                           if endswith (hd parts) '':'' then setLabel a (butlast (hd parts))
                           else (Raises (UnknownOpcode (hd parts)), a))))))"

text \<open>
  The tokens \<^verbatim>\<open>assembleLine\<close> dispatches on (lines 254-268), for a line that is
  neither blank nor a comment: the first of them is the mnemonic.
\<close>

definition line_parts :: "string \<Rightarrow> string list" where
  "line_parts rawline =
     (let parts = py_split (py_strip rawline)
      in case comment_cut parts of
           None \<Rightarrow> parts
         | Some newparts \<Rightarrow> if newparts \<noteq> [] then newparts else parts)"

text \<open>\<^verbatim>\<open>assembleLineSource\<close>, lines 284-287.\<close>

fun assembleLineSource ::
    "externals \<Rightarrow> Assembler \<Rightarrow> string list \<Rightarrow> unit result \<times> Assembler" where
  "assembleLineSource ext a [] = (Returns (), a)"
| "assembleLineSource ext a (line # lines) =
     (case assembleLine ext (a\<lparr>sourceLine := sourceLine a + 1\<rparr>) line of
        (Returns u, a') \<Rightarrow> assembleLineSource ext a' lines
      | (Raises e, a') \<Rightarrow> (Raises e, a')
      | (Diverges, a') \<Rightarrow> (Diverges, a'))"

text \<open>\<^verbatim>\<open>program[i] = v\<close> on the buffer of \<^verbatim>\<open>self.out\<close>: \<^verbatim>\<open>IndexError\<close> (here
  \<^const>\<open>None\<close>) outside it.\<close>

definition patch :: "byte list \<Rightarrow> nat \<Rightarrow> byte \<Rightarrow> byte list option" where
  "patch buf i v = (if i < length buf then Some (buf[i := v]) else None)"

text \<open>The loop of \<^verbatim>\<open>resolveLabels\<close>, lines 293-304. Offsets come from
  \<^verbatim>\<open>self.out.tell()\<close> and are natural numbers.\<close>

fun resolve_loop :: "Assembler \<Rightarrow> (nat \<times> nat \<times> string) list \<Rightarrow> unit result \<times> Assembler" where
  "resolve_loop a [] = (Returns (), a)"
| "resolve_loop a ((line, pc, label) # refs) =
     (case map_of (labels a) label of
        None \<Rightarrow> (Raises (UndefinedLabel line label), a)
      | Some dest \<Rightarrow>
          (let nextPc = pc + 3 in
           if dest < nextPc then (Raises (BackwardJumpNotAllowed line label), a)
           else
             (let jump = dest - nextPc in
              if jump > 0x7fff then (Raises (JumpTooFar line label), a)
              else
                (case patch (out a) (pc + 1) (of_nat (drop_bit 8 jump)) of
                   None \<Rightarrow> (Raises IndexError, a)
                 | Some p1 \<Rightarrow>
                     (case patch p1 (pc + 2) (of_nat (jump AND 0x0ff)) of
                        None \<Rightarrow> (Raises IndexError, a\<lparr>out := p1\<rparr>)
                      | Some p2 \<Rightarrow> resolve_loop (a\<lparr>out := p2\<rparr>) refs)))))"

text \<open>\<^verbatim>\<open>resolveLabels\<close>, lines 289-305: the patched content of \<^verbatim>\<open>self.out\<close>.\<close>

definition resolveLabels :: "Assembler \<Rightarrow> byte list result \<times> Assembler" where
  "resolveLabels a =
     (if labelReferences a = [] then (Returns (out a), a)
      else (case resolve_loop a (labelReferences a) of
              (Returns u, a') \<Rightarrow> (Returns (out a'), a')
            | (Raises e, a') \<Rightarrow> (Raises e, a')
            | (Diverges, a') \<Rightarrow> (Diverges, a')))"

text \<open>Lines 310-312 and 313-315 of \<^verbatim>\<open>getBytes\<close>: the prefix and the session after
  them, if the block writer returns.\<close>

definition flush_intc :: "byte list \<Rightarrow> Assembler \<Rightarrow> (byte list \<times> Assembler) option" where
  "flush_intc prefix a =
     (if intc a \<noteq> [] \<and> \<not> intcWritten a then
        (case write_intcblock prefix (intc a) of
           None \<Rightarrow> None
         | Some prefix' \<Rightarrow> Some (prefix', a\<lparr>intcWritten := True\<rparr>))
      else Some (prefix, a))"

definition flush_bytec :: "byte list \<Rightarrow> Assembler \<Rightarrow> (byte list \<times> Assembler) option" where
  "flush_bytec prefix a =
     (if bytec a \<noteq> [] \<and> \<not> bytecWritten a then
        (case write_bytecblock prefix (bytec a) of
           None \<Rightarrow> None
         | Some prefix' \<Rightarrow> Some (prefix', a\<lparr>bytecWritten := True\<rparr>))
      else Some (prefix, a))"

text \<open>\<^verbatim>\<open>getBytes\<close>, lines 307-317.\<close>

definition getBytes :: "Assembler \<Rightarrow> byte list result \<times> Assembler" where
  "getBytes a =
     (case to_varuint (version a) of
        None \<Rightarrow> (Diverges, a)
      | Some prefix0 \<Rightarrow>
          (case flush_intc prefix0 a of
             None \<Rightarrow> (Diverges, a)
           | Some (prefix1, a1) \<Rightarrow>
               (case flush_bytec prefix1 a1 of
                  None \<Rightarrow> (Diverges, a1)
                | Some (prefix2, a2) \<Rightarrow>
                    (case resolveLabels a2 of
                       (Returns program, a3) \<Rightarrow> (Returns (prefix2 @ program), a3)
                     | (Raises e, a3) \<Rightarrow> (Raises e, a3)
                     | (Diverges, a3) \<Rightarrow> (Diverges, a3)))))"

text \<open>A session run on a text: the lines, then the final program.\<close>

definition run_session :: "externals \<Rightarrow> Assembler \<Rightarrow> string \<Rightarrow> byte list result" where
  "run_session ext a text =
     (case assembleLineSource ext a (py_splitlines text) of
        (Returns u, a') \<Rightarrow> fst (getBytes a')
      | (Raises e, a') \<Rightarrow> Raises e
      | (Diverges, a') \<Rightarrow> Diverges)"

text \<open>\<^verbatim>\<open>AssembleString\<close>, lines 319-322: \<^verbatim>\<open>Assembler()\<close> takes the default arguments.\<close>

definition AssembleString :: "externals \<Rightarrow> string \<Rightarrow> byte list result" where
  "AssembleString ext text = run_session ext (new_Assembler ext [] 1) text"

text \<open>
  The two constant blocks in the words of the specification (section 4.3): the
  block-declare opcode, the count, then each value, or each value's length and its
  bytes.
\<close>

definition intConstBlock :: "int list \<Rightarrow> byte list" where
  "intConstBlock vs =
     0x20 # encodeVarUint (length vs) @ concat (map (\<lambda>v. encodeVarUint (nat v)) vs)"

definition byteConstBlock :: "byte list list \<Rightarrow> byte list" where
  "byteConstBlock bs =
     0x26 # encodeVarUint (length bs) @ concat (map (\<lambda>b. encodeVarUint (length b) @ b) bs)"

text \<open>
  A small registry and an address decoder that refuses everything, for running the
  assembler on concrete programs. The opcode bytes are those of version 1 of the
  instruction set.
\<close>

definition sample_externals :: externals where
  "sample_externals =
     \<lparr> langspec_Ops =
         [\<lparr>Name = ''err'', Opcode = 0x00, ArgEnum = None\<rparr>,
          \<lparr>Name = ''+'', Opcode = 0x08, ArgEnum = None\<rparr>,
          \<lparr>Name = ''txn'', Opcode = 0x31, ArgEnum = Some [''Sender'', ''Fee'', ''FirstValid'']\<rparr>,
          \<lparr>Name = ''load'', Opcode = 0x34, ArgEnum = None\<rparr>,
          \<lparr>Name = ''store'', Opcode = 0x35, ArgEnum = None\<rparr>,
          \<lparr>Name = ''bnz'', Opcode = 0x40, ArgEnum = None\<rparr>,
          \<lparr>Name = ''pop'', Opcode = 0x48, ArgEnum = None\<rparr>],
       decode_address = (\<lambda>s. None) \<rparr>"

section \<open>Properties\<close>

subsection \<open>The variable-length encoder\<close>

text \<open>
  On a number that is not negative the loop of \<^verbatim>\<open>to_varuint\<close> returns, and what it
  returns is the encoding the specification describes; on a negative number it does not
  return.
\<close>

lemma and_127: "(x::int) AND 0x7f = x mod 128"
proof -
  have m: "(0x7f::int) = mask 7" by (simp add: mask_eq_exp_minus_1)
  have "x AND mask 7 = take_bit 7 x" by (rule take_bit_eq_mask [symmetric])
  also have "\<dots> = x mod 2 ^ 7" by (rule take_bit_eq_mod)
  finally show ?thesis unfolding m by simp
qed

lemma and_255_nat: "(j::nat) AND 0x0ff = j mod 256"
proof -
  have m: "(0x0ff::nat) = mask 8" by (simp add: mask_eq_exp_minus_1)
  have "j AND mask 8 = take_bit 8 j" by (rule take_bit_eq_mask [symmetric])
  also have "\<dots> = j mod 2 ^ 8" by (rule take_bit_eq_mod)
  finally show ?thesis unfolding m by simp
qed

lemma or_128: "0 \<le> t \<Longrightarrow> t < 128 \<Longrightarrow> (t::int) OR 0x80 = t + 128"
proof -
  assume a: "0 \<le> t" "t < 128"
  have "\<not> bit t 7" using a by (simp add: bit_iff_odd)
  then have "t AND 2 ^ 7 = 0" using and_exp_eq_0_iff_not_bit [of t 7] by blast
  then have "t + 2 ^ 7 = t OR 2 ^ 7" by (rule disjunctive_add_eq_or)
  then show ?thesis by simp
qed

lemma to_varuint_loop_step:
  "to_varuint_loop x acc =
     (if x div 128 = 0 then Some (acc @ [word_of_int (x mod 128)])
      else to_varuint_loop (x div 128) (acc @ [word_of_int (x mod 128 + 128)]))"
proof -
  have "x mod 128 OR 0x80 = x mod 128 + 128" by (rule or_128) simp_all
  then show ?thesis
    by (subst to_varuint_loop.simps) (simp add: Let_def and_127 drop_bit_eq_div)
qed

lemma to_varuint_loop_nonneg:
  "0 \<le> x \<Longrightarrow> to_varuint_loop x acc = Some (acc @ encodeVarUint (nat x))"
proof (induction "nat x" arbitrary: x acc rule: less_induct)
  case less
  have d: "nat x div 128 = nat (x div 128)" using less.prems by (simp add: nat_div_distrib)
  have m: "int (nat x mod 128) = x mod 128" using less.prems by (simp add: zmod_int)
  have "word_of_int (int (nat x mod 128)) = (of_nat (nat x mod 128) :: byte)"
    by (rule of_int_of_nat_eq)
  then have b1: "(of_nat (nat x mod 128) :: byte) = word_of_int (x mod 128)"
    by (simp only: m)
  have "word_of_int (int (nat x mod 128 + 128)) = (of_nat (nat x mod 128 + 128) :: byte)"
    by (rule of_int_of_nat_eq)
  moreover have "int (nat x mod 128 + 128) = x mod 128 + 128" using m by simp
  ultimately have b2: "(of_nat (nat x mod 128 + 128) :: byte) = word_of_int (x mod 128 + 128)"
    by (simp only:)
  have unf: "encodeVarUint (nat x) =
      (if nat (x div 128) = 0 then [word_of_int (x mod 128)]
       else word_of_int (x mod 128 + 128) # encodeVarUint (nat (x div 128)))"
    by (subst encodeVarUint.simps) (simp only: b1 b2 d)
  show ?case
  proof (cases "x div 128 = 0")
    case True
    then show ?thesis by (subst to_varuint_loop_step) (simp add: unf)
  next
    case False
    have nn: "0 \<le> x div 128" using less.prems by (simp add: pos_imp_zdiv_nonneg_iff)
    with False have pos: "0 < x div 128" by simp
    then have "x div 128 < x" using less.prems by (simp add: int_div_less_self)
    then have lt: "nat (x div 128) < nat x" using nn by simp
    have nz: "nat (x div 128) \<noteq> 0" using pos by simp
    have IH: "to_varuint_loop (x div 128) acc' = Some (acc' @ encodeVarUint (nat (x div 128)))" for acc'
      using less.hyps [OF lt nn] .
    show ?thesis using False nz by (subst to_varuint_loop_step) (simp add: IH unf)
  qed
qed

lemma to_varuint_loop_Some_nonneg:
  assumes s: "to_varuint_loop x acc = Some y"
  shows "0 \<le> x"
proof -
  have "(case (x, acc) of (x, a) \<Rightarrow> (\<lambda>x a y. 0 \<le> x) x a) y"
  proof (rule to_varuint_loop.raw_induct [where P = "\<lambda>x a y. 0 \<le> x" and xa = "(x, acc)" and y = y])
    fix f :: "int \<Rightarrow> byte list \<Rightarrow> byte list option" and x :: int and acc y
    assume IH: "\<And>a b y. f a b = Some y \<Longrightarrow> 0 \<le> a"
      and st: "(let tb = x AND 0x7f; x' = drop_bit 7 x; tb' = if x' \<noteq> 0 then tb OR 0x80 else tb;
                    acc' = acc @ [word_of_int tb']
                in if x' = 0 then Some acc' else f x' acc') = Some y"
    show "0 \<le> x"
    proof (rule ccontr)
      assume "\<not> 0 \<le> x"
      then have neg: "x div 128 < 0" by simp
      then have "f (x div 128) (acc @ [word_of_int (x AND 0x7f OR 0x80)]) = Some y"
        using st by (simp add: Let_def drop_bit_eq_div)
      then have "0 \<le> x div 128" by (rule IH)
      with neg show False by simp
    qed
  next
    show "(case (x, acc) of (x, a) \<Rightarrow> to_varuint_loop x a) = Some y" using s by simp
  qed
  then show ?thesis by simp
qed

lemma to_varuint_nonneg: "0 \<le> x \<Longrightarrow> to_varuint x = Some (encodeVarUint (nat x))"
  by (simp add: to_varuint_def to_varuint_loop_nonneg)

lemma to_varuint_neg: "x < 0 \<Longrightarrow> to_varuint x = None"
proof -
  assume "x < 0"
  then have "to_varuint_loop x [] \<noteq> Some y" for y
    using to_varuint_loop_Some_nonneg [of x "[]" y] by auto
  then show ?thesis by (cases "to_varuint_loop x []") (auto simp: to_varuint_def)
qed

subsection \<open>The variants of a byte-string literal\<close>

text \<open>
  C1. The test data of the repository lists thirteen one-line programs that push the
  six bytes \<open>abcdef\<close> and expects the same binary, \<open>0126010661626364656628\<close>, of
  each. The nine programs whose literal is hexadecimal, base-64 or base-32 with its
  \<open>=\<close> padding assemble to it. The four whose base-32 literal has no padding do not
  assemble: \<^verbatim>\<open>base64.b32decode\<close> refuses a text whose length is not a multiple of
  eight, and the source passes the literal on as it is.
\<close>

theorem byte_constant_variations:
  "AssembleString ext ''byte b32 MFRGGZDFMY======''
     = Returns [0x01, 0x26, 0x01, 0x06, 0x61, 0x62, 0x63, 0x64, 0x65, 0x66, 0x28] \<and>
   AssembleString ext ''byte base32 MFRGGZDFMY======''
     = Returns [0x01, 0x26, 0x01, 0x06, 0x61, 0x62, 0x63, 0x64, 0x65, 0x66, 0x28] \<and>
   AssembleString ext ''byte base32(MFRGGZDFMY======)''
     = Returns [0x01, 0x26, 0x01, 0x06, 0x61, 0x62, 0x63, 0x64, 0x65, 0x66, 0x28] \<and>
   AssembleString ext ''byte b32(MFRGGZDFMY======)''
     = Returns [0x01, 0x26, 0x01, 0x06, 0x61, 0x62, 0x63, 0x64, 0x65, 0x66, 0x28] \<and>
   AssembleString ext ''byte b64 YWJjZGVm''
     = Returns [0x01, 0x26, 0x01, 0x06, 0x61, 0x62, 0x63, 0x64, 0x65, 0x66, 0x28] \<and>
   AssembleString ext ''byte base64 YWJjZGVm''
     = Returns [0x01, 0x26, 0x01, 0x06, 0x61, 0x62, 0x63, 0x64, 0x65, 0x66, 0x28] \<and>
   AssembleString ext ''byte b64(YWJjZGVm)''
     = Returns [0x01, 0x26, 0x01, 0x06, 0x61, 0x62, 0x63, 0x64, 0x65, 0x66, 0x28] \<and>
   AssembleString ext ''byte base64(YWJjZGVm)''
     = Returns [0x01, 0x26, 0x01, 0x06, 0x61, 0x62, 0x63, 0x64, 0x65, 0x66, 0x28] \<and>
   AssembleString ext ''byte 0x616263646566''
     = Returns [0x01, 0x26, 0x01, 0x06, 0x61, 0x62, 0x63, 0x64, 0x65, 0x66, 0x28] \<and>
   AssembleString ext ''byte b32 MFRGGZDFMY'' = Raises BinasciiError \<and>
   AssembleString ext ''byte base32 MFRGGZDFMY'' = Raises BinasciiError \<and>
   AssembleString ext ''byte base32(MFRGGZDFMY)'' = Raises BinasciiError \<and>
   AssembleString ext ''byte b32(MFRGGZDFMY)'' = Raises BinasciiError"
  by (intro conjI; code_simp)

subsection \<open>The final program\<close>

lemma write_bytestrings_eq:
  "write_bytestrings buf xs = Some (buf @ concat (map (\<lambda>b. encodeVarUint (length b) @ b) xs))"
  by (induction xs arbitrary: buf) (simp_all add: to_varuint_nonneg)

lemma write_bytecblock_eq: "write_bytecblock buf pool = Some (buf @ byteConstBlock pool)"
  by (simp add: write_bytecblock_def byteConstBlock_def to_varuint_nonneg write_bytestrings_eq)

lemma resolve_loop_frame:
  assumes "\<And>a. labels (u a) = labels a" and "\<And>a. out (u a) = out a"
    and "\<And>a p. u (a\<lparr>out := p\<rparr>) = (u a)\<lparr>out := p\<rparr>"
  shows "resolve_loop (u a) refs = (fst (resolve_loop a refs), u (snd (resolve_loop a refs)))"
proof (induction refs arbitrary: a)
  case Nil
  show ?case by simp
next
  case (Cons r refs)
  obtain line pc label where r: "r = (line, pc, label)" by (cases r)
  show ?case
    unfolding r
    by (simp add: assms Let_def Cons.IH [of "a\<lparr>out := p\<rparr>" for p, unfolded assms(3)]
             split: option.split)
qed

lemma resolveLabels_frame:
  assumes "\<And>a. labels (u a) = labels a" and "\<And>a. out (u a) = out a"
    and "\<And>a p. u (a\<lparr>out := p\<rparr>) = (u a)\<lparr>out := p\<rparr>"
    and "\<And>a. labelReferences (u a) = labelReferences a"
  shows "resolveLabels (u a) = (fst (resolveLabels a), u (snd (resolveLabels a)))"
  by (simp add: resolveLabels_def assms(2,4) resolve_loop_frame [of u, OF assms(1-3)]
           split: prod.split result.split)

lemma flush_bytec_eq:
  "flush_bytec p a =
     (if bytec a \<noteq> [] \<and> \<not> bytecWritten a
      then Some (p @ byteConstBlock (bytec a), a\<lparr>bytecWritten := True\<rparr>)
      else Some (p, a))"
  by (simp add: flush_bytec_def write_bytecblock_eq)

lemma resolveLabels_flags:
  "fst (resolveLabels (a\<lparr>intcWritten := b\<rparr>)) = fst (resolveLabels a)"
  "fst (resolveLabels (a\<lparr>bytecWritten := b\<rparr>)) = fst (resolveLabels a)"
  using resolveLabels_frame [of "\<lambda>a. a\<lparr>intcWritten := b\<rparr>" a]
        resolveLabels_frame [of "\<lambda>a. a\<lparr>bytecWritten := b\<rparr>" a]
  by simp_all

lemma getBytes_fst:
  "fst (case r of (Returns program, a3) \<Rightarrow> (Returns (p @ program), a3)
               | (Raises e, a3) \<Rightarrow> (Raises e, a3)
               | (Diverges, a3) \<Rightarrow> (Diverges, a3))
   = (case fst r of Returns program \<Rightarrow> Returns (p @ program)
               | Raises e \<Rightarrow> Raises e | Diverges \<Rightarrow> Diverges)"
  by (cases r) (simp split: result.split)

lemma write_varuints_exact:
  "write_varuints buf xs =
     (if list_ex (\<lambda>x. x < 0) xs then None
      else Some (buf @ concat (map (\<lambda>v. encodeVarUint (nat v)) xs)))"
proof (induction xs arbitrary: buf)
  case Nil
  show ?case by simp
next
  case (Cons x xs)
  show ?case
  proof (cases "x < 0")
    case True
    then show ?thesis by (simp add: to_varuint_neg)
  next
    case False
    then have "to_varuint x = Some (encodeVarUint (nat x))" by (simp add: to_varuint_nonneg)
    then show ?thesis using False by (simp add: Cons.IH)
  qed
qed

lemma write_intcblock_exact:
  "write_intcblock buf pool =
     (if list_ex (\<lambda>x. x < 0) pool then None else Some (buf @ intConstBlock pool))"
  by (simp add: write_intcblock_def intConstBlock_def to_varuint_nonneg write_varuints_exact)

lemma flush_intc_exact:
  "flush_intc p a =
     (if intc a \<noteq> [] \<and> \<not> intcWritten a
      then (if list_ex (\<lambda>x. x < 0) (intc a) then None
            else Some (p @ intConstBlock (intc a), a\<lparr>intcWritten := True\<rparr>))
      else Some (p, a))"
  by (simp add: flush_intc_def write_intcblock_exact)

lemma resolveLabels_fst:
  "fst (resolveLabels a) =
     (case resolve_loop a (labelReferences a) of
        (Returns u, a') \<Rightarrow> Returns (out a')
      | (Raises e, a') \<Rightarrow> Raises e
      | (Diverges, a') \<Rightarrow> Diverges)"
  by (simp add: resolveLabels_def split: prod.split result.split)

lemma getBytes_exact:
  "fst (getBytes a) =
     (if version a < 0 \<or> (intc a \<noteq> [] \<and> \<not> intcWritten a \<and> list_ex (\<lambda>x. x < 0) (intc a))
      then Diverges
      else (case resolve_loop a (labelReferences a) of
              (Returns u, a') \<Rightarrow>
                Returns (encodeVarUint (nat (version a))
                         @ (if intc a \<noteq> [] \<and> \<not> intcWritten a then intConstBlock (intc a) else [])
                         @ (if bytec a \<noteq> [] \<and> \<not> bytecWritten a then byteConstBlock (bytec a) else [])
                         @ out a')
            | (Raises e, a') \<Rightarrow> Raises e
            | (Diverges, a') \<Rightarrow> Diverges))"
proof (cases "version a < 0")
  case True
  then show ?thesis by (simp add: getBytes_def to_varuint_neg)
next
  case False
  then have v: "to_varuint (version a) = Some (encodeVarUint (nat (version a)))"
    by (simp add: to_varuint_nonneg)
  show ?thesis
  proof (cases "intc a \<noteq> [] \<and> \<not> intcWritten a \<and> list_ex (\<lambda>x. x < 0) (intc a)")
    case True
    then show ?thesis using False by (simp add: getBytes_def v flush_intc_exact)
  next
    case nd: False
    define ib where "ib = (if intc a \<noteq> [] \<and> \<not> intcWritten a then intConstBlock (intc a) else [])"
    define a1 where "a1 = (if intc a \<noteq> [] \<and> \<not> intcWritten a then a\<lparr>intcWritten := True\<rparr> else a)"
    define bb where "bb = (if bytec a \<noteq> [] \<and> \<not> bytecWritten a then byteConstBlock (bytec a) else [])"
    define a2 where "a2 = (if bytec a \<noteq> [] \<and> \<not> bytecWritten a then a1\<lparr>bytecWritten := True\<rparr> else a1)"
    have f1: "flush_intc p a = Some (p @ ib, a1)" for p
      using nd by (auto simp: flush_intc_exact ib_def a1_def)
    have b1: "bytec a1 = bytec a" "bytecWritten a1 = bytecWritten a"
      by (simp_all add: a1_def)
    have f2: "flush_bytec q a1 = Some (q @ bb, a2)" for q
      by (simp add: flush_bytec_eq b1 bb_def a2_def)
    have r1: "fst (resolveLabels a1) = fst (resolveLabels a)"
      by (simp add: a1_def resolveLabels_flags)
    have r2: "fst (resolveLabels a2) = fst (resolveLabels a1)"
      by (simp add: a2_def resolveLabels_flags)
    have g: "getBytes a =
        (case resolveLabels a2 of
           (Returns program, a3) \<Rightarrow> (Returns ((encodeVarUint (nat (version a)) @ ib @ bb) @ program), a3)
         | (Raises e, a3) \<Rightarrow> (Raises e, a3)
         | (Diverges, a3) \<Rightarrow> (Diverges, a3))"
      by (simp add: getBytes_def v f1 f2)
    have "fst (getBytes a) =
        (case fst (resolveLabels a) of
           Returns program \<Rightarrow> Returns ((encodeVarUint (nat (version a)) @ ib @ bb) @ program)
         | Raises e \<Rightarrow> Raises e
         | Diverges \<Rightarrow> Diverges)"
      unfolding g getBytes_fst r2 r1 ..
    also have "\<dots> =
        (case resolve_loop a (labelReferences a) of
           (Returns u, a') \<Rightarrow> Returns (encodeVarUint (nat (version a)) @ ib @ bb @ out a')
         | (Raises e, a') \<Rightarrow> Raises e
         | (Diverges, a') \<Rightarrow> Diverges)"
      unfolding resolveLabels_fst
      by (cases "resolve_loop a (labelReferences a)") (simp split: result.split)
    finally have e: "fst (getBytes a) =
        (case resolve_loop a (labelReferences a) of
           (Returns u, a') \<Rightarrow> Returns (encodeVarUint (nat (version a)) @ ib @ bb @ out a')
         | (Raises e, a') \<Rightarrow> Raises e
         | (Diverges, a') \<Rightarrow> Diverges)" .
    have c: "\<not> (version a < 0 \<or>
               (intc a \<noteq> [] \<and> \<not> intcWritten a \<and> list_ex (\<lambda>x. x < 0) (intc a)))"
      using False nd by blast
    show ?thesis by (subst if_not_P [OF c]) (rule e [unfolded ib_def bb_def])
  qed
qed

text \<open>
  C2, as the code has it. The program of three \<open>int\<close> lines interns 5 and 7, in this
  order, and writes the fast references to index 0, 0 and 1; its binary is the version,
  the integer block of 5 and 7, and these three bytes. In general the final program is
  the encoding of the version, the integer block if the pool is not empty and no block
  was written, the byte-string block on the same condition, and the instruction
  stream as the resolution loop leaves it; if the loop raises, so does the final step
  (a reference to an undefined label, say). All this holds when the version is not
  negative and, where the integer block is written, no integer of the pool is: else
  the loop of \<^verbatim>\<open>to_varuint\<close> does not end and nothing is produced.
\<close>

theorem finalize_layout:
  "fst (assembleLineSource ext (new_Assembler ext [] 1) (py_splitlines ''int 5\<newline>int 5\<newline>int 7\<newline>'')) = Returns () \<and>
   intc (snd (assembleLineSource ext (new_Assembler ext [] 1) (py_splitlines ''int 5\<newline>int 5\<newline>int 7\<newline>''))) = [5, 7] \<and>
   out (snd (assembleLineSource ext (new_Assembler ext [] 1) (py_splitlines ''int 5\<newline>int 5\<newline>int 7\<newline>'')))
     = [0x22, 0x22, 0x23] \<and>
   AssembleString ext ''int 5\<newline>int 5\<newline>int 7\<newline>'' = Returns [0x01, 0x20, 0x02, 0x05, 0x07, 0x22, 0x22, 0x23] \<and>
   encodeVarUint 1 @ intConstBlock [5, 7] @ [] @ [0x22, 0x22, 0x23]
     = [0x01, 0x20, 0x02, 0x05, 0x07, 0x22, 0x22, 0x23] \<and>
   AssembleString ext ''int 5\<newline>bnz nowhere'' = Raises (UndefinedLabel 2 ''nowhere'') \<and>
   fst (getBytes a) =
     (if version a < 0 \<or> (intc a \<noteq> [] \<and> \<not> intcWritten a \<and> list_ex (\<lambda>x. x < 0) (intc a))
      then Diverges
      else (case resolve_loop a (labelReferences a) of
              (Returns u, a') \<Rightarrow>
                Returns (encodeVarUint (nat (version a))
                         @ (if intc a \<noteq> [] \<and> \<not> intcWritten a then intConstBlock (intc a) else [])
                         @ (if bytec a \<noteq> [] \<and> \<not> bytecWritten a then byteConstBlock (bytec a) else [])
                         @ out a')
            | (Raises e, a') \<Rightarrow> Raises e
            | (Diverges, a') \<Rightarrow> Diverges))"
proof (intro conjI)
  show "fst (getBytes a) =
     (if version a < 0 \<or> (intc a \<noteq> [] \<and> \<not> intcWritten a \<and> list_ex (\<lambda>x. x < 0) (intc a))
      then Diverges
      else (case resolve_loop a (labelReferences a) of
              (Returns u, a') \<Rightarrow>
                Returns (encodeVarUint (nat (version a))
                         @ (if intc a \<noteq> [] \<and> \<not> intcWritten a then intConstBlock (intc a) else [])
                         @ (if bytec a \<noteq> [] \<and> \<not> bytecWritten a then byteConstBlock (bytec a) else [])
                         @ out a')
            | (Raises e, a') \<Rightarrow> Raises e
            | (Diverges, a') \<Rightarrow> Diverges))"
    by (rule getBytes_exact)
qed code_simp+

text \<open>
  \<open>int -1\<close> is accepted and interned, and the final step then never returns.
\<close>

theorem negative_int_counterexample:
  "fst (assembleLineSource sample_externals (new_Assembler sample_externals [] 1) [''int -1''])
     = Returns () \<and>
   intc (snd (assembleLineSource sample_externals (new_Assembler sample_externals [] 1) [''int -1'']))
     = [- 1] \<and>
   AssembleString sample_externals ''int -1'' = Diverges"
proof -
  define a' where "a' = snd (assembleLineSource sample_externals (new_Assembler sample_externals [] 1)
                               [''int -1''])"
  have f: "fst (assembleLineSource sample_externals (new_Assembler sample_externals [] 1) [''int -1''])
           = Returns ()" by code_simp
  have i: "intc a' = [- 1]" unfolding a'_def by code_simp
  have w: "\<not> intcWritten a'" unfolding a'_def by code_simp
  have g: "fst (getBytes a') = Diverges" by (simp add: getBytes_exact i w)
  have l: "py_splitlines ''int -1'' = [''int -1'']" by code_simp
  have r: "assembleLineSource sample_externals (new_Assembler sample_externals [] 1) [''int -1'']
           = (Returns (), a')"
    unfolding a'_def using f by (simp only: prod_eq_iff fst_conv snd_conv simp_thms)
  have d: "AssembleString sample_externals ''int -1'' = Diverges"
    unfolding AssembleString_def run_session_def l r by (simp add: g)
  show ?thesis by (intro conjI f i [unfolded a'_def] d)
qed

theorem finalize_layout_witness:
  "fst (getBytes ((new_Assembler sample_externals [] 1)
                    \<lparr>out := [0x40, 0x00, 0x00, 0x22, 0x23], intc := [5, 7],
                     labels := [(''done'', 5)], labelReferences := [(1, 0, ''done'')]\<rparr>))
     = Returns [0x01, 0x20, 0x02, 0x05, 0x07, 0x40, 0x00, 0x02, 0x22, 0x23]"
proof -
  define a where "a = (new_Assembler sample_externals [] 1)
                    \<lparr>out := [0x40, 0x00, 0x00, 0x22, 0x23], intc := [5, 7],
                     labels := [(''done'', 5)], labelReferences := [(1, 0, ''done'')]\<rparr>"
  have fields: "version a = 1" "intc a = [5, 7]" "\<not> intcWritten a" "bytec a = []"
    "labelReferences a = [(1, 0, ''done'')]"
    by (simp_all add: a_def new_Assembler_def)
  have rl: "resolve_loop a [(1, 0, ''done'')]
            = (Returns (), a\<lparr>out := [0x40, 0x00, 0x02, 0x22, 0x23]\<rparr>)"
    by (simp add: a_def new_Assembler_def patch_def Let_def and_255_nat drop_bit_eq_div)
  have rl2: "resolve_loop a (labelReferences a)
            = (Returns (), a\<lparr>out := [0x40, 0x00, 0x02, 0x22, 0x23]\<rparr>)"
    by (simp only: rl fields)
  have e: "encodeVarUint (nat 1) @ intConstBlock [5, 7] = [0x01, 0x20, 0x02, 0x05, 0x07]"
    by code_simp
  have "fst (getBytes a) =
     (if version a < 0 \<or> (intc a \<noteq> [] \<and> \<not> intcWritten a \<and> list_ex (\<lambda>x. x < 0) (intc a))
      then Diverges
      else (case resolve_loop a (labelReferences a) of
              (Returns u, a') \<Rightarrow>
                Returns (encodeVarUint (nat (version a))
                         @ (if intc a \<noteq> [] \<and> \<not> intcWritten a then intConstBlock (intc a) else [])
                         @ (if bytec a \<noteq> [] \<and> \<not> bytecWritten a then byteConstBlock (bytec a) else [])
                         @ out a')
            | (Raises e, a') \<Rightarrow> Raises e
            | (Diverges, a') \<Rightarrow> Diverges))"
    using finalize_layout [of sample_externals a] by (elim conjE)
  also have "\<dots> = Returns ((encodeVarUint (nat 1) @ intConstBlock [5, 7])
                              @ [0x40, 0x00, 0x02, 0x22, 0x23])"
    by (simp add: rl2 fields(1-4) del: resolve_loop.simps)
  also have "\<dots> = Returns [0x01, 0x20, 0x02, 0x05, 0x07, 0x40, 0x00, 0x02, 0x22, 0x23]"
    by (simp only: e append.simps)
  finally show ?thesis unfolding a_def .
qed

subsection \<open>References to the constant pools\<close>

lemma intc_ops_Some: "0 \<le> i \<Longrightarrow> i \<le> 3 \<Longrightarrow> intc_ops i = Some [0x22 + word_of_int i]"
proof -
  assume "0 \<le> i" "i \<le> 3"
  then have "i = 0 \<or> i = 1 \<or> i = 2 \<or> i = 3" by arith
  then show ?thesis by (auto simp: intc_ops_def)
qed

lemma intc_ops_None: "i < 0 \<or> 3 < i \<Longrightarrow> intc_ops i = None"
  by (auto simp: intc_ops_def)

lemma bytec_ops_Some: "0 \<le> i \<Longrightarrow> i \<le> 3 \<Longrightarrow> bytec_ops i = Some [0x28 + word_of_int i]"
proof -
  assume "0 \<le> i" "i \<le> 3"
  then have "i = 0 \<or> i = 1 \<or> i = 2 \<or> i = 3" by arith
  then show ?thesis by (auto simp: bytec_ops_def)
qed

lemma bytec_ops_None: "i < 0 \<or> 3 < i \<Longrightarrow> bytec_ops i = None"
  by (auto simp: bytec_ops_def)

text \<open>
  C3. A reference to pool index 0, 1, 2 or 3 appends the one fast-path opcode
  (\<open>0x22 + i\<close> for integers, \<open>0x28 + i\<close> for byte strings); a reference to an index
  from 4 to 255 appends the generic opcode (\<open>0x21\<close>, \<open>0x27\<close>) and the index byte; an
  index above 255 or below 0 raises a constant-pool overflow error and leaves the
  output as it was.
\<close>

theorem const_ref_widths:
  "(0 \<le> i \<and> i \<le> 3 \<longrightarrow>
      write_intc a i = (Returns (), a\<lparr>out := out a @ [0x22 + word_of_int i]\<rparr>) \<and>
      write_bytec a i = (Returns (), a\<lparr>out := out a @ [0x28 + word_of_int i]\<rparr>)) \<and>
   (4 \<le> i \<and> i \<le> 255 \<longrightarrow>
      write_intc a i = (Returns (), a\<lparr>out := out a @ [0x21, word_of_int i]\<rparr>) \<and>
      write_bytec a i = (Returns (), a\<lparr>out := out a @ [0x27, word_of_int i]\<rparr>)) \<and>
   (255 < i \<or> i < 0 \<longrightarrow>
      (\<exists>e. write_intc a i = (Raises e, a) \<and> ConstantPoolOverflow e) \<and>
      (\<exists>e. write_bytec a i = (Raises e, a) \<and> ConstantPoolOverflow e))"
proof (intro conjI impI)
  assume "0 \<le> i \<and> i \<le> 3"
  then show "write_intc a i = (Returns (), a\<lparr>out := out a @ [0x22 + word_of_int i]\<rparr>)"
    by (simp add: write_intc_def intc_ops_Some out_write_def)
next
  assume "0 \<le> i \<and> i \<le> 3"
  then show "write_bytec a i = (Returns (), a\<lparr>out := out a @ [0x28 + word_of_int i]\<rparr>)"
    by (simp add: write_bytec_def bytec_ops_Some out_write_def)
next
  assume "4 \<le> i \<and> i \<le> 255"
  then show "write_intc a i = (Returns (), a\<lparr>out := out a @ [0x21, word_of_int i]\<rparr>)"
    by (simp add: write_intc_def intc_ops_None out_write_def py_bytes_def)
next
  assume "4 \<le> i \<and> i \<le> 255"
  then show "write_bytec a i = (Returns (), a\<lparr>out := out a @ [0x27, word_of_int i]\<rparr>)"
    by (simp add: write_bytec_def bytec_ops_None out_write_def py_bytes_def)
next
  assume "255 < i \<or> i < 0"
  then show "\<exists>e. write_intc a i = (Raises e, a) \<and> ConstantPoolOverflow e"
    by (auto simp: write_intc_def intc_ops_None ConstantPoolOverflow_def)
next
  assume "255 < i \<or> i < 0"
  then show "\<exists>e. write_bytec a i = (Raises e, a) \<and> ConstantPoolOverflow e"
    by (auto simp: write_bytec_def bytec_ops_None ConstantPoolOverflow_def)
qed

theorem const_ref_widths_witness:
  "write_intc (new_Assembler sample_externals [] 1) 2
     = (Returns (), (new_Assembler sample_externals [] 1)\<lparr>out := [0x24]\<rparr>) \<and>
   write_bytec (new_Assembler sample_externals [] 1) 200
     = (Returns (), (new_Assembler sample_externals [] 1)\<lparr>out := [0x27, 200]\<rparr>) \<and>
   (\<exists>e. write_intc (new_Assembler sample_externals [] 1) 256
          = (Raises e, new_Assembler sample_externals [] 1) \<and> ConstantPoolOverflow e) \<and>
   (\<exists>e. write_bytec (new_Assembler sample_externals [] 1) (- 1)
          = (Raises e, new_Assembler sample_externals [] 1) \<and> ConstantPoolOverflow e)"
  using const_ref_widths [of 2 "new_Assembler sample_externals [] 1"]
        const_ref_widths [of 200 "new_Assembler sample_externals [] 1"]
        const_ref_widths [of 256 "new_Assembler sample_externals [] 1"]
        const_ref_widths [of "- 1" "new_Assembler sample_externals [] 1"]
  by (simp add: new_Assembler_def)

subsection \<open>Labels\<close>

lemma resolve_loop_patch:
  assumes "map_of (labels a) label = Some dest" and "pc + 3 \<le> dest"
    and "dest - (pc + 3) \<le> 0x7fff" and "pc + 2 < length (out a)"
  shows "resolve_loop a ((line, pc, label) # refs) =
         resolve_loop (a\<lparr>out := (out a)[pc + 1 := of_nat ((dest - (pc + 3)) div 256),
                                        pc + 2 := of_nat ((dest - (pc + 3)) mod 256)]\<rparr>) refs"
  using assms by (simp add: Let_def patch_def and_255_nat drop_bit_eq_div)

text \<open>
  C4. Label resolution takes the recorded references in order. For one reference
  \<open>(line, pc, label)\<close>: an undefined label raises \<open>UndefinedLabel\<close>; with
  \<open>nextPc = pc + 3\<close>, a label before \<open>nextPc\<close> raises \<open>BackwardJumpNotAllowed\<close> and
  one more than \<open>0x7FFF\<close> after it raises \<open>JumpTooFar\<close>; otherwise the bytes at
  \<open>pc + 1\<close> and \<open>pc + 2\<close> become the high and the low byte of \<open>dest - nextPc\<close> and
  the loop goes on. A branch at \<open>p\<close> to a label at \<open>p + 10\<close> gets the bytes 0 and 7.
  \<open>bnz\<close> records the offset of its opcode and writes the opcode and two zero bytes,
  and \<^verbatim>\<open>resolveLabels\<close> runs the loop over the recorded references.
\<close>

theorem label_resolution:
  "(map_of (labels a) label = None \<longrightarrow>
      resolve_loop a ((line, pc, label) # refs) = (Raises (UndefinedLabel line label), a)) \<and>
   (map_of (labels a) label = Some dest \<and> dest < pc + 3 \<longrightarrow>
      resolve_loop a ((line, pc, label) # refs) = (Raises (BackwardJumpNotAllowed line label), a)) \<and>
   (map_of (labels a) label = Some dest \<and> pc + 3 \<le> dest \<and> 0x7fff < dest - (pc + 3) \<longrightarrow>
      resolve_loop a ((line, pc, label) # refs) = (Raises (JumpTooFar line label), a)) \<and>
   (map_of (labels a) label = Some dest \<and> pc + 3 \<le> dest \<and> dest - (pc + 3) \<le> 0x7fff \<and>
    pc + 2 < length (out a) \<longrightarrow>
      resolve_loop a ((line, pc, label) # refs) =
      resolve_loop (a\<lparr>out := (out a)[pc + 1 := of_nat ((dest - (pc + 3)) div 256),
                                     pc + 2 := of_nat ((dest - (pc + 3)) mod 256)]\<rparr>) refs) \<and>
   (map_of (labels a) label = Some (p + 10) \<and> p + 2 < length (out a) \<longrightarrow>
      resolve_loop a [(line, p, label)] = (Returns (), a\<lparr>out := (out a)[p + 1 := 0, p + 2 := 7]\<rparr>)) \<and>
   assemble_bnz ext a op [label] =
     (Returns (), a\<lparr>labelReferences := labelReferences a @ [(sourceLine a, length (out a), label)],
                     out := out a @ [0x40, 0x00, 0x00]\<rparr>) \<and>
   resolveLabels a =
     (if labelReferences a = [] then (Returns (out a), a)
      else (case resolve_loop a (labelReferences a) of
              (Returns u, a') \<Rightarrow> (Returns (out a'), a')
            | (Raises e, a') \<Rightarrow> (Raises e, a')
            | (Diverges, a') \<Rightarrow> (Diverges, a')))"
proof (intro conjI impI)
  assume "map_of (labels a) label = Some dest \<and> pc + 3 \<le> dest \<and> dest - (pc + 3) \<le> 0x7fff \<and>
    pc + 2 < length (out a)"
  then show "resolve_loop a ((line, pc, label) # refs) =
      resolve_loop (a\<lparr>out := (out a)[pc + 1 := of_nat ((dest - (pc + 3)) div 256),
                                     pc + 2 := of_nat ((dest - (pc + 3)) mod 256)]\<rparr>) refs"
    by (blast intro: resolve_loop_patch)
next
  assume h: "map_of (labels a) label = Some (p + 10) \<and> p + 2 < length (out a)"
  then have "resolve_loop a [(line, p, label)] =
      resolve_loop (a\<lparr>out := (out a)[p + 1 := of_nat ((p + 10 - (p + 3)) div 256),
                                     p + 2 := of_nat ((p + 10 - (p + 3)) mod 256)]\<rparr>) []"
    by (intro resolve_loop_patch) simp_all
  then show "resolve_loop a [(line, p, label)] = (Returns (), a\<lparr>out := (out a)[p + 1 := 0, p + 2 := 7]\<rparr>)"
    by simp
next
  show "assemble_bnz ext a op [label] =
     (Returns (), a\<lparr>labelReferences := labelReferences a @ [(sourceLine a, length (out a), label)],
                     out := out a @ [0x40, 0x00, 0x00]\<rparr>)"
    by (simp add: assemble_bnz_def out_write_def referenceLabel_def)
next
  show "resolveLabels a =
     (if labelReferences a = [] then (Returns (out a), a)
      else (case resolve_loop a (labelReferences a) of
              (Returns u, a') \<Rightarrow> (Returns (out a'), a')
            | (Raises e, a') \<Rightarrow> (Raises e, a')
            | (Diverges, a') \<Rightarrow> (Diverges, a')))"
    by (simp add: resolveLabels_def)
qed (simp_all add: Let_def)

theorem label_resolution_witness:
  "resolve_loop
     ((new_Assembler sample_externals [] 1)
        \<lparr>out := [0x40, 0, 0, 0x48, 0x48, 0x48, 0x48, 0x48, 0x48, 0x48],
         labels := [(''done'', 10)], labelReferences := [(1, 0, ''done'')]\<rparr>)
     [(1, 0, ''done'')]
   = (Returns (),
      (new_Assembler sample_externals [] 1)
        \<lparr>out := [0x40, 0, 7, 0x48, 0x48, 0x48, 0x48, 0x48, 0x48, 0x48],
         labels := [(''done'', 10)], labelReferences := [(1, 0, ''done'')]\<rparr>) \<and>
   AssembleString sample_externals
     ''bnz done\<newline>pop\<newline>pop\<newline>pop\<newline>pop\<newline>pop\<newline>pop\<newline>pop\<newline>done:\<newline>''
   = Returns [0x01, 0x40, 0, 7, 0x48, 0x48, 0x48, 0x48, 0x48, 0x48, 0x48] \<and>
   AssembleString sample_externals ''done:\<newline>bnz done\<newline>''
   = Raises (BackwardJumpNotAllowed 2 ''done'') \<and>
   AssembleString sample_externals ''bnz nowhere\<newline>''
   = Raises (UndefinedLabel 1 ''nowhere'')"
proof (intro conjI)
  let ?a = "(new_Assembler sample_externals [] 1)
        \<lparr>out := [0x40, 0, 0, 0x48, 0x48, 0x48, 0x48, 0x48, 0x48, 0x48],
         labels := [(''done'', 10)], labelReferences := [(1, 0, ''done'')]\<rparr>"
  have "map_of (labels ?a) ''done'' = Some (0 + 10) \<and> 0 + 2 < length (out ?a)"
    by simp
  then have "resolve_loop ?a [(1, 0, ''done'')]
      = (Returns (), ?a\<lparr>out := (out ?a)[0 + 1 := 0, 0 + 2 := 7]\<rparr>)"
    using label_resolution [of ?a "''done''" _ _ _ _ 0] by blast
  then show "resolve_loop ?a [(1, 0, ''done'')]
   = (Returns (),
      (new_Assembler sample_externals [] 1)
        \<lparr>out := [0x40, 0, 7, 0x48, 0x48, 0x48, 0x48, 0x48, 0x48, 0x48],
         labels := [(''done'', 10)], labelReferences := [(1, 0, ''done'')]\<rparr>)"
    by (simp add: new_Assembler_def)
qed code_simp+

subsection \<open>What a session depends on\<close>

lemmas writer_defs =
  write_intc_def write_bytec_def write_bytes_def out_write_def bytestring_def raise_named_def
  write_enum_def setLabel_def referenceLabel_def

lemmas handler_defs =
  assemble_int_def assemble_intc_def assemble_intcblock_def assemble_bytec_def assemble_addr_def
  assemble_byte_def assemble_bytecblock_def assemble_arg_def assemble_txn_def assemble_gtxn_def
  assemble_global_def assemble_bnz_def assemble_load_def assemble_store_def load_store_def

lemma assemble_method_cases:
  assumes "assemble_method name = Some fn"
  shows "fn = assemble_int \<or> fn = assemble_intc \<or> fn = assemble_intcblock \<or> fn = assemble_bytec \<or>
         fn = assemble_addr \<or> fn = assemble_byte \<or> fn = assemble_bytecblock \<or> fn = assemble_arg \<or>
         fn = assemble_txn \<or> fn = assemble_gtxn \<or> fn = assemble_global \<or> fn = assemble_bnz \<or>
         fn = assemble_load \<or> fn = assemble_store"
  using assms by (auto simp: assemble_method_def split: if_splits)

text \<open>No handler changes the version or the line counter.\<close>

lemma handler_keeps:
  assumes "assemble_method name = Some fn"
  shows "version (snd (fn ext a op args)) = version a \<and>
         sourceLine (snd (fn ext a op args)) = sourceLine a"
  using assemble_method_cases [OF assms]
  by (elim disjE)
     (simp_all add: handler_defs writer_defs Let_def
        split: option.split result.split prod.split list.split)

lemma assembleLine_keeps:
  "version (snd (assembleLine ext a l)) = version a \<and>
   sourceLine (snd (assembleLine ext a l)) = sourceLine a"
  by (simp add: assembleLine_def Let_def handler_keeps writer_defs
        split: option.split)

text \<open>No handler reads the name of the source.\<close>

lemma handler_sourceName:
  assumes "assemble_method name = Some fn"
  shows "fn ext (a\<lparr>sourceName := n\<rparr>) op args
         = (fst (fn ext a op args), (snd (fn ext a op args))\<lparr>sourceName := n\<rparr>)"
  using assemble_method_cases [OF assms]
  by (elim disjE)
     (simp_all add: handler_defs writer_defs Let_def
        split: option.split result.split prod.split list.split)

lemma assembleLine_sourceName:
  "assembleLine ext (a\<lparr>sourceName := n\<rparr>) l
   = (fst (assembleLine ext a l), (snd (assembleLine ext a l))\<lparr>sourceName := n\<rparr>)"
  by (simp add: assembleLine_def Let_def handler_sourceName writer_defs
        split: option.split)

text \<open>The outcome of a handler does not depend on the line counter.\<close>

lemma handler_sourceLine:
  assumes "assemble_method name = Some fn"
  shows "fst (fn ext (a\<lparr>sourceLine := k\<rparr>) op args) = fst (fn ext a op args)"
  using assemble_method_cases [OF assms]
  by (elim disjE)
     (simp_all add: handler_defs writer_defs Let_def
        split: option.split result.split prod.split list.split)

lemma assembleLine_sourceLine:
  "fst (assembleLine ext (a\<lparr>sourceLine := k\<rparr>) l) = fst (assembleLine ext a l)"
  by (simp add: assembleLine_def Let_def handler_sourceLine writer_defs
        split: option.split)

lemma assembleLineSource_keeps:
  "version (snd (assembleLineSource ext a ls)) = version a"
proof (induction ls arbitrary: a)
  case Nil
  show ?case by simp
next
  case (Cons l ls)
  obtain r a' where s: "assembleLine ext (a\<lparr>sourceLine := sourceLine a + 1\<rparr>) l = (r, a')"
    by (cases "assembleLine ext (a\<lparr>sourceLine := sourceLine a + 1\<rparr>) l")
  have "version a' = version a"
    using assembleLine_keeps [of ext "a\<lparr>sourceLine := sourceLine a + 1\<rparr>" l] s by simp
  then show ?case using s Cons.IH [of a'] by (cases r) simp_all
qed

lemma assembleLineSource_counter:
  "assembleLineSource ext a ls = (Returns u, a') \<Longrightarrow> sourceLine a' = sourceLine a + length ls"
proof (induction ls arbitrary: a)
  case Nil
  then show ?case by simp
next
  case (Cons l ls)
  obtain r a1 where s: "assembleLine ext (a\<lparr>sourceLine := sourceLine a + 1\<rparr>) l = (r, a1)"
    by (cases "assembleLine ext (a\<lparr>sourceLine := sourceLine a + 1\<rparr>) l")
  have c: "sourceLine a1 = sourceLine a + 1"
    using assembleLine_keeps [of ext "a\<lparr>sourceLine := sourceLine a + 1\<rparr>" l] s by simp
  from Cons.prems s have "assembleLineSource ext a1 ls = (Returns u, a')"
    by (cases r) simp_all
  then have "sourceLine a' = sourceLine a1 + length ls" by (rule Cons.IH)
  with c show ?case by simp
qed

lemma assembleLineSource_append:
  "assembleLineSource ext a pre = (Returns u, a1) \<Longrightarrow>
   assembleLineSource ext a (pre @ ls) = assembleLineSource ext a1 ls"
proof (induction pre arbitrary: a)
  case Nil
  then show ?case by simp
next
  case (Cons l pre)
  obtain r a' where s: "assembleLine ext (a\<lparr>sourceLine := sourceLine a + 1\<rparr>) l = (r, a')"
    by (cases "assembleLine ext (a\<lparr>sourceLine := sourceLine a + 1\<rparr>) l")
  from Cons.prems s have "r = Returns ()" "assembleLineSource ext a' pre = (Returns u, a1)"
    by (cases r; simp)+
  then show ?case using s Cons.IH [of a'] by simp
qed

lemma assembleLineSource_sourceName:
  "assembleLineSource ext (a\<lparr>sourceName := n\<rparr>) ls
   = (fst (assembleLineSource ext a ls), (snd (assembleLineSource ext a ls))\<lparr>sourceName := n\<rparr>)"
proof (induction ls arbitrary: a)
  case Nil
  show ?case by simp
next
  case (Cons l ls)
  obtain r a' where s: "assembleLine ext (a\<lparr>sourceLine := sourceLine a + 1\<rparr>) l = (r, a')"
    by (cases "assembleLine ext (a\<lparr>sourceLine := sourceLine a + 1\<rparr>) l")
  have swap: "a\<lparr>sourceName := n, sourceLine := sourceLine a + 1\<rparr>
              = a\<lparr>sourceLine := sourceLine a + 1, sourceName := n\<rparr>"
    by (cases a) simp
  have "assembleLine ext (a\<lparr>sourceName := n, sourceLine := sourceLine a + 1\<rparr>) l
        = (r, a'\<lparr>sourceName := n\<rparr>)"
    unfolding swap using s
    by (subst assembleLine_sourceName) simp
  then show ?case using s Cons.IH [of a'] by (cases r) simp_all
qed

lemma getBytes_sourceName: "fst (getBytes (a\<lparr>sourceName := n\<rparr>)) = fst (getBytes a)"
proof -
  have r: "fst (resolveLabels (b\<lparr>sourceName := n\<rparr>)) = fst (resolveLabels b)" for b
    using resolveLabels_frame [of "\<lambda>a. a\<lparr>sourceName := n\<rparr>" b] by simp
  have f1: "flush_intc p (b\<lparr>sourceName := n\<rparr>)
            = map_option (\<lambda>(q, c). (q, c\<lparr>sourceName := n\<rparr>)) (flush_intc p b)" for p b
    by (simp add: flush_intc_def split: option.split)
  have f2: "flush_bytec p (b\<lparr>sourceName := n\<rparr>)
            = map_option (\<lambda>(q, c). (q, c\<lparr>sourceName := n\<rparr>)) (flush_bytec p b)" for p b
    by (simp add: flush_bytec_def split: option.split)
  show ?thesis
    by (simp add: getBytes_def f1 f2 getBytes_fst r split: option.split prod.split)
qed

lemma run_session_sourceName:
  "run_session ext (a\<lparr>sourceName := n\<rparr>) text = run_session ext a text"
  by (simp add: run_session_def assembleLineSource_sourceName getBytes_sourceName
           split: prod.split result.split)

text \<open>Every fresh session gives the result of \<^verbatim>\<open>AssembleString\<close>.\<close>

lemma run_session_fresh:
  "run_session ext (new_Assembler ext n v) text = AssembleString ext text"
proof -
  have "run_session ext (new_Assembler ext n v) text
        = run_session ext ((new_Assembler ext [] 1)\<lparr>sourceName := n\<rparr>) text"
    by (simp add: new_Assembler_def)
  also have "\<dots> = run_session ext (new_Assembler ext [] 1) text"
    by (rule run_session_sourceName)
  finally show ?thesis by (simp add: AssembleString_def)
qed

subsection \<open>The version\<close>

lemma write_varuints_prefix: "write_varuints buf xs = Some r \<Longrightarrow> \<exists>t. r = buf @ t"
proof (induction xs arbitrary: buf)
  case Nil
  then show ?case by simp
next
  case (Cons x xs)
  then obtain b where "to_varuint x = Some b" "write_varuints (buf @ b) xs = Some r"
    by (auto split: option.splits)
  then obtain t where "r = (buf @ b) @ t" using Cons.IH by blast
  then show ?case by simp
qed

lemma flush_intc_prefix: "flush_intc p a = Some (q, a') \<Longrightarrow> \<exists>t. q = p @ t"
  by (auto simp: flush_intc_def write_intcblock_def
           split: if_splits option.splits dest!: write_varuints_prefix)

lemma flush_bytec_prefix: "flush_bytec p a = Some (q, a') \<Longrightarrow> \<exists>t. q = p @ t"
  by (auto simp: flush_bytec_eq split: if_splits)

lemma getBytes_prefix:
  assumes "fst (getBytes a) = Returns bs"
  shows "\<exists>p t. to_varuint (version a) = Some p \<and> bs = p @ t"
proof -
  from assms obtain p0 where p0: "to_varuint (version a) = Some p0"
    by (cases "to_varuint (version a)") (simp_all add: getBytes_def)
  from assms p0 obtain p1 a1 where p1: "flush_intc p0 a = Some (p1, a1)"
    by (cases "flush_intc p0 a") (auto simp: getBytes_def)
  from assms p0 p1 obtain p2 a2 where p2: "flush_bytec p1 a1 = Some (p2, a2)"
    by (cases "flush_bytec p1 a1") (auto simp: getBytes_def)
  from assms p0 p1 p2 obtain program where "bs = p2 @ program"
    by (auto simp: getBytes_def split: prod.splits result.splits)
  moreover obtain t1 where "p1 = p0 @ t1" using flush_intc_prefix [OF p1] by blast
  moreover obtain t2 where "p2 = p1 @ t2" using flush_bytec_prefix [OF p2] by blast
  ultimately have "bs = p0 @ (t1 @ t2 @ program)" by simp
  with p0 show ?thesis by blast
qed

lemma to_varuint_1: "to_varuint 1 = Some [0x01]"
  by code_simp

text \<open>
  C9. The constructor stores the version 1 whatever it is given, no line changes it,
  and the final program starts with its encoding, the byte \<open>01\<close>.
\<close>

theorem version_ignored:
  "version (new_Assembler ext sourceName_arg version_arg) = 1 \<and>
   to_varuint 1 = Some [0x01] \<and>
   (run_session ext (new_Assembler ext sourceName_arg version_arg) text = Returns bs \<longrightarrow>
      (\<exists>rest. bs = 0x01 # rest))"
proof (intro conjI impI)
  show "version (new_Assembler ext sourceName_arg version_arg) = 1"
    by (simp add: new_Assembler_def)
  show "to_varuint 1 = Some [0x01]" by (rule to_varuint_1)
  assume r: "run_session ext (new_Assembler ext sourceName_arg version_arg) text = Returns bs"
  let ?a = "snd (assembleLineSource ext (new_Assembler ext sourceName_arg version_arg) (py_splitlines text))"
  have v: "version ?a = 1"
    by (simp add: assembleLineSource_keeps new_Assembler_def)
  from r have "fst (getBytes ?a) = Returns bs"
    by (auto simp: run_session_def split: prod.splits result.splits)
  then obtain p t where "to_varuint (version ?a) = Some p" "bs = p @ t"
    using getBytes_prefix by blast
  then show "\<exists>rest. bs = 0x01 # rest" by (auto simp: v to_varuint_1)
qed

theorem version_ignored_witness:
  "run_session sample_externals (new_Assembler sample_externals ''prog.teal'' 7) ''int 5''
     = Returns [0x01, 0x20, 0x01, 0x05, 0x22] \<and>
   (\<exists>rest. [0x01, 0x20, 0x01, 0x05, 0x22 :: byte] = 0x01 # rest) \<and>
   version (new_Assembler sample_externals ''prog.teal'' 7) = 1"
proof -
  have r: "run_session sample_externals (new_Assembler sample_externals ''prog.teal'' 7) ''int 5''
     = Returns [0x01, 0x20, 0x01, 0x05, 0x22]"
    by code_simp
  with version_ignored [of sample_externals "''prog.teal''" 7 "''int 5''" "[0x01, 0x20, 0x01, 0x05, 0x22]"]
  show ?thesis by blast
qed

subsection \<open>A line that fails\<close>

text \<open>
  C7, as the code has it. When the lines before it assemble and a line raises, the
  whole job ends with the error of that line and no binary; the line counter of the
  session then holds the 1-based number of the line. The error itself is the one
  \<^verbatim>\<open>assembleLine\<close> raised: the outcome of a line does not depend on the counter, and
  nothing adds the number to the error.
\<close>

theorem line_failure_aborts:
  "(assembleLineSource ext a pre = (Returns (), a1) \<and>
    assembleLine ext (a1\<lparr>sourceLine := sourceLine a1 + 1\<rparr>) l = (Raises e, a2) \<longrightarrow>
      assembleLineSource ext a (pre @ l # post) = (Raises e, a2) \<and>
      sourceLine a2 = sourceLine a + length pre + 1 \<and>
      (py_splitlines text = pre @ l # post \<longrightarrow> run_session ext a text = Raises e)) \<and>
   fst (assembleLine ext (a\<lparr>sourceLine := k\<rparr>) l) = fst (assembleLine ext a l)"
proof (intro conjI impI)
  show "fst (assembleLine ext (a\<lparr>sourceLine := k\<rparr>) l) = fst (assembleLine ext a l)"
    by (rule assembleLine_sourceLine)
next
  assume h: "assembleLineSource ext a pre = (Returns (), a1) \<and>
    assembleLine ext (a1\<lparr>sourceLine := sourceLine a1 + 1\<rparr>) l = (Raises e, a2)"
  then have "assembleLineSource ext a (pre @ l # post) = assembleLineSource ext a1 (l # post)"
    by (blast intro: assembleLineSource_append)
  with h show run: "assembleLineSource ext a (pre @ l # post) = (Raises e, a2)" by simp
  have "sourceLine a1 = sourceLine a + length pre"
    using h assembleLineSource_counter by blast
  moreover have "sourceLine a2 = sourceLine (a1\<lparr>sourceLine := sourceLine a1 + 1\<rparr>)"
    using assembleLine_keeps [of ext "a1\<lparr>sourceLine := sourceLine a1 + 1\<rparr>" l] h by simp
  ultimately show "sourceLine a2 = sourceLine a + length pre + 1" by simp
  assume "py_splitlines text = pre @ l # post"
  with run show "run_session ext a text = Raises e" by (simp add: run_session_def)
qed

text \<open>
  The same unknown mnemonic, or the same wrong number of arguments, surfaces as the
  same error from line 1 as from line 2 or 3: the error carries no line number.
\<close>

theorem line_number_counterexample:
  "AssembleString sample_externals ''foo'' = Raises (UnknownOpcode ''foo'') \<and>
   AssembleString sample_externals ''pop\<newline>foo'' = Raises (UnknownOpcode ''foo'') \<and>
   AssembleString sample_externals ''int 1 2'' = Raises IntExpectsOneArg \<and>
   AssembleString sample_externals ''pop\<newline>pop\<newline>int 1 2'' = Raises IntExpectsOneArg"
  by (intro conjI; code_simp)

theorem line_failure_aborts_witness:
  "fst (assembleLineSource sample_externals (new_Assembler sample_externals [] 1) [''pop'', ''foo'', ''pop''])
     = Raises (UnknownOpcode ''foo'') \<and>
   sourceLine (snd (assembleLineSource sample_externals (new_Assembler sample_externals [] 1)
                      [''pop'', ''foo'', ''pop''])) = 2 \<and>
   run_session sample_externals (new_Assembler sample_externals [] 1) ''pop\<newline>foo\<newline>pop''
     = Raises (UnknownOpcode ''foo'')"
proof -
  let ?A = "new_Assembler sample_externals [] 1"
  let ?a1 = "snd (assembleLineSource sample_externals ?A [''pop''])"
  let ?a2 = "snd (assembleLine sample_externals (?a1\<lparr>sourceLine := sourceLine ?a1 + 1\<rparr>) ''foo'')"
  have "fst (assembleLineSource sample_externals ?A [''pop'']) = Returns ()" by code_simp
  then have h1: "assembleLineSource sample_externals ?A [''pop''] = (Returns (), ?a1)"
    by (simp add: prod_eq_iff)
  have "fst (assembleLine sample_externals (?a1\<lparr>sourceLine := sourceLine ?a1 + 1\<rparr>) ''foo'')
        = Raises (UnknownOpcode ''foo'')" by code_simp
  then have h2: "assembleLine sample_externals (?a1\<lparr>sourceLine := sourceLine ?a1 + 1\<rparr>) ''foo''
        = (Raises (UnknownOpcode ''foo''), ?a2)"
    by (simp add: prod_eq_iff)
  have t: "py_splitlines ''pop\<newline>foo\<newline>pop'' = [''pop''] @ ''foo'' # [''pop'']" by code_simp
  have "assembleLineSource sample_externals ?A ([''pop''] @ ''foo'' # [''pop''])
          = (Raises (UnknownOpcode ''foo''), ?a2) \<and>
        sourceLine ?a2 = sourceLine ?A + length [''pop''] + 1 \<and>
        run_session sample_externals ?A ''pop\<newline>foo\<newline>pop'' = Raises (UnknownOpcode ''foo'')"
    using line_failure_aborts [of sample_externals ?A "[''pop'']" ?a1 "''foo''" "UnknownOpcode ''foo''" ?a2
             "[''pop'']" "''pop\<newline>foo\<newline>pop''"] h1 h2 t
    by blast
  then show ?thesis by (simp add: new_Assembler_def)
qed

subsection \<open>The constant pools\<close>



















lemma line_parts_nonempty: "py_split (py_strip l) \<noteq> [] \<Longrightarrow> line_parts l \<noteq> []"
  by (simp add: line_parts_def Let_def split: option.split)

lemma assembleLine_parts:
  "assembleLine ext a rawline =
     (if rawline = [] \<or> py_strip rawline = [] \<or> startswith (py_strip rawline) ''//''
      then (Returns (), a)
      else if py_split (py_strip rawline) = [] then (Raises (CouldNotParseLine rawline), a)
      else (case assemble_method (hd (line_parts rawline)) of
              Some fn \<Rightarrow> fn ext a (opByName a (hd (line_parts rawline))) (tl (line_parts rawline))
            | None \<Rightarrow>
                (case opByName a (hd (line_parts rawline)) of
                   Some x \<Rightarrow> write_bytes a [Opcode x]
                 | None \<Rightarrow>
                     if endswith (hd (line_parts rawline)) '':''
                     then setLabel a (butlast (hd (line_parts rawline)))
                     else (Raises (UnknownOpcode (hd (line_parts rawline))), a))))"
  unfolding assembleLine_def line_parts_def Let_def
  by (simp cong: option.case_cong if_cong)






subsection \<open>An integer after an explicit block\<close>






subsection \<open>The number of arguments\<close>




subsection \<open>The registry and the text\<close>

text \<open>
  A handler reads the registry only through the record it is given, and the address
  decoder only in \<open>addr\<close>.
\<close>

lemma handler_registry:
  assumes "assemble_method name = Some fn" and dec: "decode_address ext2 = decode_address ext1"
  shows "fn ext2 (a\<lparr>spec := sp, opByName := ob\<rparr>) op args
         = (fst (fn ext1 a op args), (snd (fn ext1 a op args))\<lparr>spec := sp, opByName := ob\<rparr>)"
  using assemble_method_cases [OF assms(1)]
  by (elim disjE)
     (simp_all add: handler_defs writer_defs Let_def dec
        split: option.split result.split prod.split list.split)

lemma handler_keeps_registry:
  assumes "assemble_method name = Some fn"
  shows "opByName (snd (fn ext a op args)) = opByName a"
  using assemble_method_cases [OF assms]
  by (elim disjE)
     (simp_all add: handler_defs writer_defs Let_def
        split: option.split result.split prod.split list.split)

lemma assembleLine_keeps_registry: "opByName (snd (assembleLine ext a l)) = opByName a"
  by (simp add: assembleLine_def Let_def handler_keeps_registry writer_defs
        split: option.split)

lemma assembleLine_registry:
  assumes dec: "decode_address ext2 = decode_address ext1"
    and agree: "list_all (\<lambda>m. opByName a m = ob m) (take 1 (line_parts l))"
  shows "assembleLine ext2 (a\<lparr>spec := sp, opByName := ob\<rparr>) l
         = (fst (assembleLine ext1 a l), (snd (assembleLine ext1 a l))\<lparr>spec := sp, opByName := ob\<rparr>)"
proof (cases "l = [] \<or> py_strip l = [] \<or> startswith (py_strip l) ''//'' \<or> py_split (py_strip l) = []")
  case True
  then show ?thesis by (auto simp: assembleLine_parts)
next
  case False
  then have "line_parts l \<noteq> []" by (simp add: line_parts_nonempty)
  then obtain m args where p: "line_parts l = m # args" by (cases "line_parts l") auto
  have o: "ob m = opByName a m" using agree p by simp
  show ?thesis
  proof (cases "assemble_method m")
    case None
    then show ?thesis
      using False p o
      by (simp add: assembleLine_parts writer_defs split: option.split)
  next
    case (Some fn)
    then show ?thesis
      using False p o handler_registry [OF Some dec, where a = a and sp = sp and ob = ob and op = "opByName a m" and args = args]
      by (simp add: assembleLine_parts)
  qed
qed

lemma assembleLineSource_registry:
  assumes dec: "decode_address ext2 = decode_address ext1"
  shows "list_all (\<lambda>l. list_all (\<lambda>m. opByName a m = ob m) (take 1 (line_parts l))) ls \<Longrightarrow>
         assembleLineSource ext2 (a\<lparr>spec := sp, opByName := ob\<rparr>) ls
         = (fst (assembleLineSource ext1 a ls),
            (snd (assembleLineSource ext1 a ls))\<lparr>spec := sp, opByName := ob\<rparr>)"
proof (induction ls arbitrary: a)
  case Nil
  show ?case by simp
next
  case (Cons l ls)
  let ?b = "a\<lparr>sourceLine := sourceLine a + 1\<rparr>"
  obtain r a' where s: "assembleLine ext1 ?b l = (r, a')" by (cases "assembleLine ext1 ?b l")
  have swap: "(a\<lparr>spec := sp, opByName := ob\<rparr>)
                \<lparr>sourceLine := sourceLine (a\<lparr>spec := sp, opByName := ob\<rparr>) + 1\<rparr>
              = ?b\<lparr>spec := sp, opByName := ob\<rparr>"
    by (cases a) simp
  have ag: "list_all (\<lambda>m. opByName ?b m = ob m) (take 1 (line_parts l))"
    using Cons.prems by simp
  have step: "assembleLine ext2 (?b\<lparr>spec := sp, opByName := ob\<rparr>) l
              = (r, a'\<lparr>spec := sp, opByName := ob\<rparr>)"
    using assembleLine_registry [OF dec ag, where sp = sp] s by simp
  have k: "opByName a' = opByName a"
    using assembleLine_keeps_registry [of ext1 ?b l] s by simp
  have rest: "list_all (\<lambda>l. list_all (\<lambda>m. opByName a' m = ob m) (take 1 (line_parts l))) ls"
    using Cons.prems k by simp
  have "assembleLineSource ext2 (a\<lparr>spec := sp, opByName := ob\<rparr>) (l # ls)
        = (case (r, a'\<lparr>spec := sp, opByName := ob\<rparr>) of
             (Returns u, a') \<Rightarrow> assembleLineSource ext2 a' ls
           | (Raises e, a') \<Rightarrow> (Raises e, a')
           | (Diverges, a') \<Rightarrow> (Diverges, a'))"
    unfolding assembleLineSource.simps swap step ..
  then show ?case using s Cons.IH [OF rest] by (cases r) simp_all
qed

lemma getBytes_registry:
  "fst (getBytes (a\<lparr>spec := sp, opByName := ob\<rparr>)) = fst (getBytes a)"
proof -
  have r: "fst (resolveLabels (b\<lparr>spec := sp, opByName := ob\<rparr>)) = fst (resolveLabels b)" for b
    using resolveLabels_frame [of "\<lambda>a. a\<lparr>spec := sp, opByName := ob\<rparr>" b] by simp
  have f1: "flush_intc p (b\<lparr>spec := sp, opByName := ob\<rparr>)
            = map_option (\<lambda>(q, c). (q, c\<lparr>spec := sp, opByName := ob\<rparr>)) (flush_intc p b)" for p b
    by (simp add: flush_intc_def split: option.split)
  have f2: "flush_bytec p (b\<lparr>spec := sp, opByName := ob\<rparr>)
            = map_option (\<lambda>(q, c). (q, c\<lparr>spec := sp, opByName := ob\<rparr>)) (flush_bytec p b)" for p b
    by (simp add: flush_bytec_def split: option.split)
  show ?thesis
    by (simp add: getBytes_def f1 f2 getBytes_fst r split: option.split prod.split)
qed

lemma run_session_registry:
  assumes dec: "decode_address ext2 = decode_address ext1"
    and agree: "list_all (\<lambda>l. list_all (\<lambda>m. opByName a m = ob m) (take 1 (line_parts l)))
                  (py_splitlines text)"
  shows "run_session ext2 (a\<lparr>spec := sp, opByName := ob\<rparr>) text = run_session ext1 a text"
  by (simp add: run_session_def assembleLineSource_registry [OF dec agree] getBytes_registry
           split: prod.split result.split)

text \<open>
  C8, as the code has it. Two fresh sessions give the same result on the same text
  whatever the arguments of their constructors, provided they read registries that
  agree on the mnemonics of the text and use the same address decoder: the result is
  determined by the text, by what the registry says of the first token of each line,
  and by the decoder.
\<close>

theorem output_determined_by:
  "(decode_address ext1 = decode_address ext2 \<and>
    list_all (\<lambda>l. list_all (\<lambda>m. ops_by_name (langspec_Ops ext1) m = ops_by_name (langspec_Ops ext2) m)
                         (take 1 (line_parts l)))
             (py_splitlines text) \<longrightarrow>
      run_session ext1 (new_Assembler ext1 name1 version1) text
        = run_session ext2 (new_Assembler ext2 name2 version2) text) \<and>
   run_session ext1 (new_Assembler ext1 name1 version1) text = AssembleString ext1 text"
proof (intro conjI impI)
  show "run_session ext1 (new_Assembler ext1 name1 version1) text = AssembleString ext1 text"
    by (rule run_session_fresh)
next
  assume h: "decode_address ext1 = decode_address ext2 \<and>
    list_all (\<lambda>l. list_all (\<lambda>m. ops_by_name (langspec_Ops ext1) m = ops_by_name (langspec_Ops ext2) m)
                         (take 1 (line_parts l)))
             (py_splitlines text)"
  let ?A1 = "new_Assembler ext1 [] 1"
  let ?s2 = "langspec_Ops ext2" and ?o2 = "ops_by_name (langspec_Ops ext2)"
  have dec: "decode_address ext2 = decode_address ext1" using h by simp
  have ag: "list_all (\<lambda>l. list_all (\<lambda>m. opByName ?A1 m = ?o2 m) (take 1 (line_parts l)))
              (py_splitlines text)"
    using h by (simp add: new_Assembler_def)
  have "new_Assembler ext2 [] 1 = ?A1\<lparr>spec := ?s2, opByName := ?o2\<rparr>"
    by (simp add: new_Assembler_def)
  then have "AssembleString ext2 text = run_session ext2 (?A1\<lparr>spec := ?s2, opByName := ?o2\<rparr>) text"
    by (simp only: AssembleString_def)
  also have "\<dots> = run_session ext1 ?A1 text"
    by (rule run_session_registry [OF dec ag])
  finally have "AssembleString ext2 text = AssembleString ext1 text"
    by (simp only: AssembleString_def)
  then show "run_session ext1 (new_Assembler ext1 name1 version1) text
        = run_session ext2 (new_Assembler ext2 name2 version2) text"
    by (simp only: run_session_fresh)
qed

text \<open>
  The text is not the only input: \<open>pop\<close> assembles to the opcode that the registry
  file gives it.
\<close>

theorem registry_counterexample:
  "AssembleString sample_externals ''pop'' = Returns [0x01, 0x48] \<and>
   AssembleString (sample_externals\<lparr>langspec_Ops := [\<lparr>Name = ''pop'', Opcode = 0x49, ArgEnum = None\<rparr>]\<rparr>)
     ''pop'' = Returns [0x01, 0x49]"
  by (intro conjI; code_simp)

theorem output_determined_by_witness:
  "run_session
     (sample_externals\<lparr>langspec_Ops := [\<lparr>Name = ''dup'', Opcode = 0x49, ArgEnum = None\<rparr>,
                                        \<lparr>Name = ''pop'', Opcode = 0x48, ArgEnum = None\<rparr>]\<rparr>)
     (new_Assembler
        (sample_externals\<lparr>langspec_Ops := [\<lparr>Name = ''dup'', Opcode = 0x49, ArgEnum = None\<rparr>,
                                           \<lparr>Name = ''pop'', Opcode = 0x48, ArgEnum = None\<rparr>]\<rparr>)
        ''b.teal'' 2)
     ''int 5\<newline>pop\<newline>''
   = Returns [0x01, 0x20, 0x01, 0x05, 0x22, 0x48]"
proof -
  define ext2 where "ext2 = sample_externals\<lparr>langspec_Ops :=
       [\<lparr>Name = ''dup'', Opcode = 0x49, ArgEnum = None\<rparr>,
        \<lparr>Name = ''pop'', Opcode = 0x48, ArgEnum = None\<rparr>]\<rparr>"
  have d: "decode_address sample_externals = decode_address ext2"
    by (simp add: ext2_def)
  have l: "list_all (\<lambda>l. list_all (\<lambda>m. ops_by_name (langspec_Ops sample_externals) m
                                          = ops_by_name (langspec_Ops ext2) m)
                         (take 1 (line_parts l)))
             (py_splitlines ''int 5\<newline>pop\<newline>'')"
    unfolding ext2_def by code_simp
  have h: "decode_address sample_externals = decode_address ext2 \<and>
      list_all (\<lambda>l. list_all (\<lambda>m. ops_by_name (langspec_Ops sample_externals) m
                                          = ops_by_name (langspec_Ops ext2) m)
                         (take 1 (line_parts l)))
             (py_splitlines ''int 5\<newline>pop\<newline>'')"
    by (intro conjI d l)
  have e: "run_session sample_externals (new_Assembler sample_externals ''a.teal'' 1) ''int 5\<newline>pop\<newline>''
        = run_session ext2 (new_Assembler ext2 ''b.teal'' 2) ''int 5\<newline>pop\<newline>''"
    by (rule output_determined_by [of sample_externals ext2 "''int 5\<newline>pop\<newline>''" "''a.teal''" 1 "''b.teal''" 2,
              THEN conjunct1, THEN mp, OF h])
  have a: "run_session sample_externals (new_Assembler sample_externals ''a.teal'' 1) ''int 5\<newline>pop\<newline>''
        = Returns [0x01, 0x20, 0x01, 0x05, 0x22, 0x48]"
    by code_simp
  show ?thesis using e a unfolding ext2_def by simp
qed

end
